theory Spec2Isabelle
  imports Complex_Main
begin

section \<open>Numbers of the source language\<close>

text \<open>
  The backend is TypeScript: every number is an IEEE-754 binary64 value. A finite
  double is a rational, so the model computes with \<^typ>\<open>rat\<close> and rounds the exact
  result of each division and multiplication to the nearest double, ties to even
  (\<open>fl\<close>). Subnormal numbers and the sign of zero are not modelled: \<open>fl\<close> is the
  rounding of the source for \<open>2^-1022 \<le> \<bar>x\<bar> < 2^1024\<close> and for \<open>0\<close>; where the source can
  reach the infinities, \<open>to_number\<close> below adds them. In the points computation \<open>NaN\<close>
  is \<open>None\<close> of an option type.
\<close>

definition pow2 :: "int \<Rightarrow> rat" where
  "pow2 e = (if 0 \<le> e then 2 ^ nat e else 1 / 2 ^ nat (- e))"

function bitlen :: "int \<Rightarrow> int" where
  \<comment> \<open>the number of binary digits of a positive integer\<close>
  "bitlen n = (if n \<le> 0 then 0 else 1 + bitlen (n div 2))"
  by pat_completeness auto
termination
  by (relation "measure nat") auto

definition ilog2 :: "rat \<Rightarrow> int" where
  \<comment> \<open>the exponent \<open>e\<close> with \<open>2^e \<le> \<bar>x\<bar> < 2^(e+1)\<close>, for \<open>x \<noteq> 0\<close>\<close>
  "ilog2 x =
     (let (p, q) = quotient_of \<bar>x\<bar>;
          e = bitlen p - bitlen q
      in if pow2 e \<le> \<bar>x\<bar> then e else e - 1)"

definition round_half_even :: "rat \<Rightarrow> int" where
  "round_half_even y =
     (let n = \<lfloor>y\<rfloor>; r = y - of_int n
      in if r < 1 / 2 then n
         else if 1 / 2 < r then n + 1
         else if even n then n else n + 1)"

definition fl :: "rat \<Rightarrow> rat" where
  \<comment> \<open>round to 53 significant bits\<close>
  "fl x =
     (if x = 0 then 0
      else let u = pow2 (ilog2 x - 52)
           in of_int (round_half_even (x / u)) * u)"

type_synonym number = "rat option"

definition Math_floor :: "number \<Rightarrow> int option" where
  "Math_floor x = map_option (\<lambda>r. \<lfloor>r\<rfloor>) x"

datatype jsval =
    Num rat
  | Undefined
  | Inherited  \<comment> \<open>a member found on \<open>Object.prototype\<close>: a function or an object\<close>

fun truthy :: "jsval \<Rightarrow> bool" where
  "truthy (Num r) = (r \<noteq> 0)"
| "truthy Undefined = False"
| "truthy Inherited = True"

definition js_or :: "jsval \<Rightarrow> jsval \<Rightarrow> jsval" where
  \<comment> \<open>\<open>a || b\<close>\<close>
  "js_or a b = (if truthy a then a else b)"

fun js_times :: "rat \<Rightarrow> jsval \<Rightarrow> number" where
  \<comment> \<open>\<open>x * v\<close> for a number \<open>x\<close>: a function or an object converts to \<open>NaN\<close>, and so
      does \<open>undefined\<close>\<close>
  "js_times x (Num m) = Some (fl (x * m))"
| "js_times x Undefined = None"
| "js_times x Inherited = None"

section \<open>Points (utils/points.ts)\<close>

definition multipliers :: "(string \<times> rat) list" where
  "multipliers =
     [(''NORMAL'', fl (11 / 10)),
      (''LOYAL'', fl (14 / 10)),
      (''OWNER'', fl (17 / 10)),
      (''ADMIN'', fl 1)]"

definition Object_prototype :: "string list" where
  \<comment> \<open>the members every object literal inherits\<close>
  "Object_prototype =
     [''constructor'', ''hasOwnProperty'', ''isPrototypeOf'', ''propertyIsEnumerable'',
      ''toLocaleString'', ''toString'', ''valueOf'', ''__proto__'',
      ''__defineGetter__'', ''__defineSetter__'', ''__lookupGetter__'', ''__lookupSetter__'']"

definition multipliers_get :: "string \<Rightarrow> jsval" where
  \<comment> \<open>\<open>multipliers[role]\<close>: own keys first, then the prototype\<close>
  "multipliers_get role =
     (case map_of multipliers role of
        Some m \<Rightarrow> Num m
      | None \<Rightarrow> if role \<in> set Object_prototype then Inherited else Undefined)"

definition calculatePoints :: "rat \<Rightarrow> string \<Rightarrow> int option" where
  "calculatePoints amount role =
     (let basePoints = \<lfloor>fl (amount / 100)\<rfloor>
      in Math_floor (js_times (of_int basePoints) (js_or (multipliers_get role) (Num (fl 1)))))"

text \<open>
  The points table as the specification words it: the base points are the floor of a
  hundredth of the amount, the multiplier is looked up by role and is \<open>1.0\<close> for every
  other role, and the result is the floor of the double product of the two.
\<close>

definition multiplier_of :: "string \<Rightarrow> rat" where
  "multiplier_of role =
     (if role = ''NORMAL'' then fl (11 / 10)
      else if role = ''LOYAL'' then fl (14 / 10)
      else if role = ''OWNER'' then fl (17 / 10)
      else 1)"

definition pointsForPurchase :: "int \<Rightarrow> string \<Rightarrow> int" where
  "pointsForPurchase amount role =
     \<lfloor>fl (of_int (amount div 100) * multiplier_of role)\<rfloor>"

section \<open>Strings of the source language\<close>

text \<open>
  The numbers that become part of an identifier are doubles as well: \<open>parseInt\<close>
  returns the double nearest to the digits it reads, \<open>lastId + 1\<close> is a double sum, and
  \<open>String\<close> writes the shortest digits that read back as the same double. Such a
  number is a finite double, an infinity or \<open>NaN\<close>.
\<close>

datatype jsnum = Finite rat | PlusInfinity | MinusInfinity | NotANumber

function ipow :: "rat \<Rightarrow> int \<Rightarrow> rat" where
  \<comment> \<open>\<open>b^n\<close> for \<open>n \<ge> 0\<close>\<close>
  "ipow b n = (if n \<le> 0 then 1 else b * ipow b (n - 1))"
  by pat_completeness auto
termination
  by (relation "measure (\<lambda>(b, n). nat n)") auto

definition overflow :: rat where
  \<comment> \<open>\<open>2^1024\<close>, by squaring \<open>2^16\<close> six times\<close>
  "overflow =
     (let a = 65536; b = a * a; c = b * b; d = c * c; e = d * d; f = e * e in f * f)"

definition to_number :: "rat \<Rightarrow> jsnum" where
  \<comment> \<open>the double nearest to a real number; past the largest double it is an infinity\<close>
  "to_number x =
     (let y = fl x
      in if overflow \<le> y then PlusInfinity
         else if y \<le> - overflow then MinusInfinity
         else Finite y)"

fun js_plus :: "jsnum \<Rightarrow> rat \<Rightarrow> jsnum" where
  \<comment> \<open>\<open>x + y\<close> for a finite \<open>y\<close>\<close>
  "js_plus (Finite x) y = to_number (x + y)"
| "js_plus PlusInfinity y = PlusInfinity"
| "js_plus MinusInfinity y = MinusInfinity"
| "js_plus NotANumber y = NotANumber"

definition index_of :: "char \<Rightarrow> string \<Rightarrow> int" where
  \<comment> \<open>the position of the first occurrence\<close>
  "index_of c s = int (length (takeWhile (\<lambda>x. x \<noteq> c) s))"

definition digit_char :: "int \<Rightarrow> char" where
  "digit_char d = ''0123456789'' ! nat d"

definition is_digit :: "char \<Rightarrow> bool" where
  "is_digit c = (c \<in> set ''0123456789'')"

definition digit_val :: "char \<Rightarrow> int" where
  "digit_val c = index_of c ''0123456789''"

definition is_hex :: "char \<Rightarrow> bool" where
  "is_hex c = (c \<in> set ''0123456789abcdefABCDEF'')"

definition hex_val :: "char \<Rightarrow> int" where
  "hex_val c =
     (if c \<in> set ''0123456789abcdef'' then index_of c ''0123456789abcdef''
      else index_of c ''0123456789ABCDEF'')"

definition is_space :: "char \<Rightarrow> bool" where
  \<comment> \<open>the ASCII white space that \<open>parseInt\<close> skips\<close>
  "is_space c = (c \<in> set [CHR '' '', CHR 0x09, CHR 0x0A, CHR 0x0B, CHR 0x0C, CHR 0x0D])"

function dec :: "int \<Rightarrow> string" where
  \<comment> \<open>the decimal digits of a natural number\<close>
  "dec n = (if n < 10 then [digit_char n] else dec (n div 10) @ [digit_char (n mod 10)])"
  by pat_completeness auto
termination
  by (relation "measure nat") auto

text \<open>
  \<open>String(x)\<close> for a double \<open>x\<close> whose value is an integer, which is all the source
  converts. Below \<open>2^53\<close> every integer is a double of its own and is written with all
  its digits. From there on the digits are the shortest \<open>s\<close>, of length \<open>k\<close>, with
  \<open>s * 10^(n - k)\<close> rounding to \<open>x\<close>; they are followed by zeros up to \<open>n = 21\<close>
  digits and by an exponent beyond. Seventeen digits always suffice.
\<close>

definition fits :: "rat \<Rightarrow> int \<Rightarrow> int \<times> int \<Rightarrow> bool" where
  \<comment> \<open>\<open>s\<close> has \<open>k\<close> digits and \<open>s * 10^(n - k)\<close> rounds to \<open>x\<close>\<close>
  "fits x k c =
     (case c of (n, s) \<Rightarrow>
        if of_int s < ipow 10 (k - 1) then False
        else if ipow 10 k \<le> of_int s then False
        else fl (of_int s * ipow 10 (n - k)) = x)"

definition candidates :: "rat \<Rightarrow> int \<Rightarrow> int \<Rightarrow> (int \<times> int) list" where
  \<comment> \<open>the pairs \<open>(n, s)\<close> of \<open>k\<close> digits that round to \<open>x\<close>, an integer of \<open>d\<close> digits\<close>
  "candidates x d k =
     filter (fits x k)
       [(d, \<lfloor>x / ipow 10 (d - k)\<rfloor>), (d, \<lfloor>x / ipow 10 (d - k)\<rfloor> + 1),
        (d + 1, \<lfloor>x / ipow 10 (d + 1 - k)\<rfloor>), (d + 1, \<lfloor>x / ipow 10 (d + 1 - k)\<rfloor> + 1)]"

definition nearer :: "rat \<Rightarrow> int \<Rightarrow> int \<times> int \<Rightarrow> int \<times> int \<Rightarrow> int \<times> int" where
  \<comment> \<open>of two candidates the one nearer to \<open>x\<close>, the even one when both are as near\<close>
  "nearer x k a b =
     (let da = \<bar>of_int (snd a) * ipow 10 (fst a - k) - x\<bar>;
          db = \<bar>of_int (snd b) * ipow 10 (fst b - k) - x\<bar>
      in if da < db then a else if db < da then b else if even (snd a) then a else b)"

fun shortest :: "rat \<Rightarrow> int \<Rightarrow> int list \<Rightarrow> (int \<times> int \<times> int) option" where
  \<comment> \<open>the least \<open>k\<close> of the list that has a candidate, with the nearest \<open>(n, s)\<close>\<close>
  "shortest x d [] = None"
| "shortest x d (k # ks) =
     (case candidates x d k of
        [] \<Rightarrow> shortest x d ks
      | c # cs \<Rightarrow> Some (k, fold (nearer x k) cs c))"

definition num_str :: "rat \<Rightarrow> string" where
  \<comment> \<open>for an integer \<open>x \<ge> 0\<close>\<close>
  "num_str x =
     (if x < 9007199254740992 then dec \<lfloor>x\<rfloor>
      else let d = int (length (dec \<lfloor>x\<rfloor>))
           in (case shortest x d [k \<leftarrow> [1..17]. k \<le> d] of
                 None \<Rightarrow> dec \<lfloor>x\<rfloor>
               | Some (k, n, s) \<Rightarrow>
                   if n \<le> 21 then dec s @ replicate (nat (n - k)) (CHR ''0'')
                   else (if k = 1 then dec s else hd (dec s) # CHR ''.'' # tl (dec s))
                        @ ''e+'' @ dec (n - 1)))"

definition js_String :: "jsnum \<Rightarrow> string" where
  "js_String x =
     (case x of
        NotANumber \<Rightarrow> ''NaN''
      | PlusInfinity \<Rightarrow> ''Infinity''
      | MinusInfinity \<Rightarrow> ''-Infinity''
      | Finite r \<Rightarrow> if r < 0 then CHR ''-'' # num_str (- r) else num_str r)"

definition int_String :: "int \<Rightarrow> string" where
  \<comment> \<open>\<open>String\<close> of a number that is an integer\<close>
  "int_String n = js_String (to_number (of_int n))"

definition padStart :: "nat \<Rightarrow> char \<Rightarrow> string \<Rightarrow> string" where
  "padStart n c s = replicate (n - length s) c @ s"

fun digits_val :: "int \<Rightarrow> (char \<Rightarrow> int) \<Rightarrow> int \<Rightarrow> string \<Rightarrow> int" where
  "digits_val base val acc [] = acc"
| "digits_val base val acc (c # cs) = digits_val base val (base * acc + val c) cs"

definition parseInt :: "string \<Rightarrow> jsnum" where
  \<comment> \<open>\<open>parseInt(s)\<close> with no radix: white space, a sign, \<open>0x\<close> for hexadecimal, then the
      longest run of digits; \<open>NaN\<close> when there is none\<close>
  "parseInt s =
     (let t = dropWhile is_space s;
          neg = (t \<noteq> [] \<and> hd t = CHR ''-'');
          r = (if t \<noteq> [] \<and> (hd t = CHR ''-'' \<or> hd t = CHR ''+'') then tl t else t);
          hex = (take 2 r = ''0x'' \<or> take 2 r = ''0X'');
          ds = (if hex then takeWhile is_hex (drop 2 r) else takeWhile is_digit r);
          n = (if hex then digits_val 16 hex_val 0 ds else digits_val 10 digit_val 0 ds)
      in if ds = [] then NotANumber else to_number (of_int (if neg then - n else n)))"

fun split :: "char \<Rightarrow> string \<Rightarrow> string list" where
  \<comment> \<open>\<open>s.split(d)\<close> for a one-character separator\<close>
  "split d [] = [[]]"
| "split d (c # cs) =
     (if c = d then [] # split d cs
      else (c # hd (split d cs)) # tl (split d cs))"

definition parseInt_at :: "string list \<Rightarrow> nat \<Rightarrow> jsnum" where
  \<comment> \<open>\<open>parseInt(xs[i])\<close>: an index out of range reads \<open>undefined\<close>, which parses to \<open>NaN\<close>\<close>
  "parseInt_at xs i = (if i < length xs then parseInt (xs ! i) else NotANumber)"

definition startsWith :: "string \<Rightarrow> string \<Rightarrow> bool" where
  "startsWith p s = (take (length p) s = p)"

fun replace_first :: "string \<Rightarrow> string \<Rightarrow> string \<Rightarrow> string" where
  \<comment> \<open>\<open>s.replace(p, r)\<close> for a non-empty string pattern: the first occurrence only\<close>
  "replace_first p r [] = []"
| "replace_first p r (c # cs) =
     (if startsWith p (c # cs) then r @ drop (length p) (c # cs)
      else c # replace_first p r cs)"

fun str_less :: "string \<Rightarrow> string \<Rightarrow> bool" where
  \<comment> \<open>the order of \<open>orderBy\<close> on a text column: by character code, a prefix first\<close>
  "str_less [] [] = False"
| "str_less [] (y # ys) = True"
| "str_less (x # xs) [] = False"
| "str_less (x # xs) (y # ys) =
     ((of_char x :: int) < of_char y \<or> (x = y \<and> str_less xs ys))"

subsection \<open>Identifier generators (utils/points.ts)\<close>

record env =
  env_now :: int  \<comment> \<open>\<open>Date.now()\<close>\<close>
  env_year :: int  \<comment> \<open>\<open>new Date().getFullYear()\<close>\<close>
  env_random :: rat  \<comment> \<open>\<open>Math.random()\<close>\<close>
  env_uuid :: string  \<comment> \<open>the id the store gives a new row\<close>
  env_hashPassword :: "string \<Rightarrow> string"  \<comment> \<open>utils/password, a library hash\<close>
  env_isEmail :: "string \<Rightarrow> bool"  \<comment> \<open>the email test of the validation library\<close>

definition generateLoyaltyId :: "jsnum \<Rightarrow> string" where
  "generateLoyaltyId lastId =
     ''CUST'' @ padStart 3 (CHR ''0'') (js_String (js_plus lastId 1))"

definition generatePinCode :: "env \<Rightarrow> string" where
  "generatePinCode e =
     int_String \<lfloor>fl (10000000 + fl (env_random e * 90000000))\<rfloor>"

definition generateCouponCode :: "env \<Rightarrow> jsnum \<Rightarrow> string" where
  "generateCouponCode e lastId =
     ''COUP-'' @ int_String (env_year e) @ ''-''
       @ padStart 3 (CHR ''0'') (js_String (js_plus lastId 1))"

definition generateReceiptNumber :: "env \<Rightarrow> string" where
  "generateReceiptNumber e =
     ''RCP-'' @ int_String (env_now e) @ ''-''
       @ int_String \<lfloor>fl (env_random e * 1000)\<rfloor>"

section \<open>The store\<close>

text \<open>
  The Prisma schema is not among the sources. The tables below have the columns that the
  controllers, the seed script and the response types read and write; what the schema
  alone decides is taken from the specification, at the definitions that say so. The
  controllers look customers up with \<open>findUnique\<close> by \<open>id\<close>, \<open>loyaltyId\<close> and \<open>email\<close>
  and coupons by \<open>code\<close>, which the client offers for unique columns only. Integer
  columns are unbounded here.
\<close>

datatype role = NORMAL | LOYAL | OWNER | ADMIN

fun role_name :: "role \<Rightarrow> string" where
  "role_name NORMAL = ''NORMAL''"
| "role_name LOYAL = ''LOYAL''"
| "role_name OWNER = ''OWNER''"
| "role_name ADMIN = ''ADMIN''"

definition role_of_name :: "string \<Rightarrow> role option" where
  "role_of_name r =
     (if r = ''NORMAL'' then Some NORMAL else if r = ''LOYAL'' then Some LOYAL
      else if r = ''OWNER'' then Some OWNER else if r = ''ADMIN'' then Some ADMIN
      else None)"

record customer =
  customer_id :: string
  loyaltyId :: string
  name :: string
  email :: string
  phone :: string
  pinCode :: string
  points :: int
  totalSpent :: rat
  visitCount :: int
  role :: role
  customer_createdAt :: int

record purchase =
  purchase_id :: string
  purchase_customerId :: string
  amount :: rat
  pointsEarned :: int
  receiptNumber :: string
  timestamp :: int

record coupon =
  coupon_id :: string
  code :: string
  coupon_customerId :: string
  coupon_value :: int
  coupon_createdAt :: int
  redeemed :: bool
  redeemedAt :: "int option"

record store =
  customers :: "customer list"
  purchases :: "purchase list"
  coupons :: "coupon list"

definition empty_store :: store where
  "empty_store = \<lparr>customers = [], purchases = [], coupons = []\<rparr>"

definition customer_findUnique :: "string \<Rightarrow> store \<Rightarrow> customer option" where
  \<comment> \<open>\<open>prisma.customer.findUnique({ where: { id } })\<close>\<close>
  "customer_findUnique i s = find (\<lambda>c. customer_id c = i) (customers s)"

definition customer_findUnique_email :: "string \<Rightarrow> store \<Rightarrow> customer option" where
  "customer_findUnique_email e s = find (\<lambda>c. email c = e) (customers s)"

definition coupon_findUnique :: "string \<Rightarrow> store \<Rightarrow> coupon option" where
  \<comment> \<open>\<open>prisma.coupon.findUnique({ where: { code } })\<close>\<close>
  "coupon_findUnique k s = find (\<lambda>c. code c = k) (coupons s)"

fun findFirst_desc :: "('a \<Rightarrow> string) \<Rightarrow> 'a list \<Rightarrow> 'a option" where
  \<comment> \<open>\<open>findFirst({ orderBy: { key: 'desc' } })\<close>: a row whose key is greatest\<close>
  "findFirst_desc key [] = None"
| "findFirst_desc key (x # xs) =
     (case findFirst_desc key xs of
        None \<Rightarrow> Some x
      | Some y \<Rightarrow> if str_less (key x) (key y) then Some y else Some x)"

text \<open>A write that the store refuses throws; the model returns \<open>None\<close> for it.\<close>

definition customer_create :: "customer \<Rightarrow> store \<Rightarrow> store option" where
  \<comment> \<open>Modelled from the spec: the schema, which is not among the sources, makes \<open>id\<close>,
      \<open>loyaltyId\<close> and \<open>email\<close> unique; a row that repeats one is refused.\<close>
  "customer_create c s =
     (if find (\<lambda>d. customer_id d = customer_id c \<or> loyaltyId d = loyaltyId c
                    \<or> email d = email c) (customers s) = None
      then Some (s\<lparr>customers := customers s @ [c]\<rparr>)
      else None)"

definition customer_update ::
  "string \<Rightarrow> (customer \<Rightarrow> customer) \<Rightarrow> store \<Rightarrow> store option" where
  \<comment> \<open>\<open>customer.update({ where: { id }, data })\<close>; no such row throws\<close>
  "customer_update i f s =
     (case customer_findUnique i s of
        None \<Rightarrow> None
      | Some _ \<Rightarrow>
          Some (s\<lparr>customers := map (\<lambda>c. if customer_id c = i then f c else c) (customers s)\<rparr>))"

definition customer_delete :: "string \<Rightarrow> store \<Rightarrow> store option" where
  \<comment> \<open>Modelled from the spec: the schema, which is not among the sources, deletes the
      purchases and the coupons of a deleted customer with it. No such row throws.\<close>
  "customer_delete i s =
     (case customer_findUnique i s of
        None \<Rightarrow> None
      | Some _ \<Rightarrow>
          Some \<lparr>customers = filter (\<lambda>c. customer_id c \<noteq> i) (customers s),
                purchases = filter (\<lambda>p. purchase_customerId p \<noteq> i) (purchases s),
                coupons = filter (\<lambda>k. coupon_customerId k \<noteq> i) (coupons s)\<rparr>)"

definition purchase_create :: "purchase \<Rightarrow> store \<Rightarrow> store option" where
  "purchase_create p s = Some (s\<lparr>purchases := purchases s @ [p]\<rparr>)"

definition coupon_create :: "coupon \<Rightarrow> store \<Rightarrow> store option" where
  \<comment> \<open>Modelled from the spec: the schema, which is not among the sources, makes \<open>code\<close>
      unique; a coupon that repeats a code is refused.\<close>
  "coupon_create k s =
     (if coupon_findUnique (code k) s = None
      then Some (s\<lparr>coupons := coupons s @ [k]\<rparr>)
      else None)"

definition coupon_update :: "string \<Rightarrow> (coupon \<Rightarrow> coupon) \<Rightarrow> store \<Rightarrow> store option" where
  "coupon_update k f s =
     (case coupon_findUnique k s of
        None \<Rightarrow> None
      | Some _ \<Rightarrow>
          Some (s\<lparr>coupons := map (\<lambda>c. if code c = k then f c else c) (coupons s)\<rparr>))"

section \<open>Requests\<close>

datatype error =
    ValidationError  \<comment> \<open>400, Validation failed\<close>
  | Forbidden  \<comment> \<open>403\<close>
  | NotFound  \<comment> \<open>404\<close>
  | InsufficientPoints  \<comment> \<open>400, Not enough points\<close>
  | AlreadyRedeemed  \<comment> \<open>400, Coupon already redeemed\<close>
  | Conflict  \<comment> \<open>400, Email already registered\<close>
  | InternalError  \<comment> \<open>500, from the \<open>catch\<close> of every controller\<close>

record user =
  \<comment> \<open>\<open>req.user\<close>, the verified token\<close>
  user_id :: string
  user_loyaltyId :: string
  user_role :: role

record createCustomerBody =
  cc_name :: string
  cc_email :: string
  cc_phone :: string
  cc_pinCode :: "string option"

record updateCustomerBody =
  \<comment> \<open>the keys of \<open>updateCustomerSchema\<close>; a body is taken to carry no other key\<close>
  u_name :: "string option"
  u_email :: "string option"
  u_phone :: "string option"
  u_points :: "int option"
  u_role :: "string option"

record createPurchaseBody =
  \<comment> \<open>the amount is a number: the schema asks for a positive one, whole or not; a
      JSON number beyond the range of the doubles is left out\<close>
  cp_customerId :: string
  cp_amount :: rat
  cp_receiptNumber :: "string option"

subsection \<open>Validation (middleware/validation.ts)\<close>

definition phone_ok :: "string \<Rightarrow> bool" where
  \<comment> \<open>\<open>/^\+?[0-9]{10,15}$/\<close>\<close>
  "phone_ok s =
     (let r = (if s \<noteq> [] \<and> hd s = CHR ''+'' then tl s else s)
      in 10 \<le> length r \<and> length r \<le> 15 \<and> list_all is_digit r)"

definition pin_ok :: "string \<Rightarrow> bool" where
  \<comment> \<open>\<open>/^\d{8}$/\<close>\<close>
  "pin_ok s = (length s = 8 \<and> list_all is_digit s)"

definition opt_ok :: "('a \<Rightarrow> bool) \<Rightarrow> 'a option \<Rightarrow> bool" where
  \<comment> \<open>\<open>.optional()\<close>\<close>
  "opt_ok P x = (case x of None \<Rightarrow> True | Some v \<Rightarrow> P v)"

definition createCustomerSchema :: "env \<Rightarrow> createCustomerBody \<Rightarrow> bool" where
  "createCustomerSchema e b =
     (2 \<le> length (cc_name b) \<and> env_isEmail e (cc_email b) \<and> phone_ok (cc_phone b)
      \<and> opt_ok pin_ok (cc_pinCode b))"

definition updateCustomerSchema :: "env \<Rightarrow> updateCustomerBody \<Rightarrow> bool" where
  "updateCustomerSchema e b =
     (opt_ok (\<lambda>n. 2 \<le> length n) (u_name b) \<and> opt_ok (env_isEmail e) (u_email b)
      \<and> opt_ok phone_ok (u_phone b) \<and> opt_ok (\<lambda>p. 0 \<le> p) (u_points b)
      \<and> opt_ok (\<lambda>r. r \<in> set [''NORMAL'', ''LOYAL'', ''OWNER'', ''ADMIN'']) (u_role b))"

definition createPurchaseSchema :: "createPurchaseBody \<Rightarrow> bool" where
  "createPurchaseSchema b = (1 \<le> length (cp_customerId b) \<and> 0 < cp_amount b)"

definition validate :: "bool \<Rightarrow> ((error + 'a) \<times> store) \<Rightarrow> store \<Rightarrow> (error + 'a) \<times> store" where
  \<comment> \<open>the middleware answers 400 itself or passes the request on\<close>
  "validate ok next s = (if ok then next else (Inl ValidationError, s))"


subsection \<open>Customers (controllers/customerController.ts)\<close>

definition createCustomer ::
  "env \<Rightarrow> createCustomerBody \<Rightarrow> store \<Rightarrow> (error + customer \<times> string) \<times> store" where
  \<comment> \<open>\<open>points\<close>, \<open>totalSpent\<close> and \<open>visitCount\<close> are not in \<open>data\<close>: the new row has the
      defaults of the schema, \<open>0\<close> by the specification and the documented response\<close>
  "createCustomer e b s =
     (case customer_findUnique_email (cc_email b) s of
        Some _ \<Rightarrow> (Inl Conflict, s)
      | None \<Rightarrow>
          let lastCustomer =
                findFirst_desc loyaltyId
                  (filter (\<lambda>c. startsWith ''CUST'' (loyaltyId c)) (customers s));
              lastIdNumber =
                (case lastCustomer of
                   Some c \<Rightarrow> parseInt (replace_first ''CUST'' [] (loyaltyId c))
                 | None \<Rightarrow> Finite 0);
              pin = (case cc_pinCode b of
                       Some p \<Rightarrow> if p \<noteq> [] then p else generatePinCode e
                     | None \<Rightarrow> generatePinCode e);
              c = \<lparr>customer_id = env_uuid e,
                   loyaltyId = generateLoyaltyId lastIdNumber,
                   name = cc_name b, email = cc_email b, phone = cc_phone b,
                   pinCode = env_hashPassword e pin,
                   points = 0, totalSpent = 0, visitCount = 0, role = NORMAL,
                   customer_createdAt = env_now e\<rparr>
          in (case customer_create c s of
                None \<Rightarrow> (Inl InternalError, s)
              | Some s' \<Rightarrow> (Inr (c, pin), s')))"

definition apply_updates :: "updateCustomerBody \<Rightarrow> role option \<Rightarrow> customer \<Rightarrow> customer" where
  \<comment> \<open>\<open>data: updates\<close>: each key that is present overwrites its column\<close>
  "apply_updates b r c =
     c\<lparr>name := (case u_name b of Some v \<Rightarrow> v | None \<Rightarrow> name c),
       email := (case u_email b of Some v \<Rightarrow> v | None \<Rightarrow> email c),
       phone := (case u_phone b of Some v \<Rightarrow> v | None \<Rightarrow> phone c),
       points := (case u_points b of Some v \<Rightarrow> v | None \<Rightarrow> points c),
       role := (case r of Some v \<Rightarrow> v | None \<Rightarrow> role c)\<rparr>"

definition email_taken :: "string \<Rightarrow> string \<Rightarrow> store \<Rightarrow> bool" where
  \<comment> \<open>Modelled from the spec: \<open>email\<close> is unique in the schema, which is not among the
      sources. Here a row other than \<open>i\<close> has the email.\<close>
  "email_taken v i s = (find (\<lambda>c. email c = v \<and> customer_id c \<noteq> i) (customers s) \<noteq> None)"

definition customer_update_data ::
  "string \<Rightarrow> updateCustomerBody \<Rightarrow> store \<Rightarrow> store option" where
  \<comment> \<open>the store refuses a role outside the enumeration and the email of another row\<close>
  "customer_update_data i b s =
     (if (case u_role b of Some r \<Rightarrow> role_of_name r = None | None \<Rightarrow> False) then None
      else if (case u_email b of Some v \<Rightarrow> email_taken v i s | None \<Rightarrow> False) then None
      else customer_update i
             (apply_updates b (case u_role b of Some r \<Rightarrow> role_of_name r | None \<Rightarrow> None)) s)"

definition updateCustomer ::
  "user \<Rightarrow> string \<Rightarrow> updateCustomerBody \<Rightarrow> store \<Rightarrow> (error + customer) \<times> store" where
  "updateCustomer u i updates s =
     (if user_role u \<noteq> ADMIN \<and> user_id u \<noteq> i then (Inl Forbidden, s)
      else if (case u_role updates of Some r \<Rightarrow> r \<noteq> [] | None \<Rightarrow> False)
              \<and> user_role u \<noteq> ADMIN then (Inl Forbidden, s)
      else (case customer_update_data i updates s of
              None \<Rightarrow> (Inl InternalError, s)
            | Some s' \<Rightarrow>
                (case customer_findUnique i s' of
                   None \<Rightarrow> (Inl InternalError, s)
                 | Some c \<Rightarrow> (Inr c, s'))))"

definition deleteCustomer :: "string \<Rightarrow> store \<Rightarrow> (error + unit) \<times> store" where
  "deleteCustomer i s =
     (case customer_delete i s of
        None \<Rightarrow> (Inl InternalError, s)
      | Some s' \<Rightarrow> (Inr (), s'))"

subsection \<open>Purchases (controllers/purchaseController.ts)\<close>

definition autoUpgrade :: "role \<Rightarrow> int \<Rightarrow> role" where
  \<comment> \<open>the \<open>role\<close> entry of the update in \<open>createPurchase\<close>, \<open>// Auto-upgrade role based
      on visits\<close>; \<open>n\<close> is \<open>customer.visitCount + 1\<close>\<close>
  "autoUpgrade r n = (if n \<ge> 50 then OWNER else if n \<ge> 20 then LOYAL else r)"

definition createPurchase ::
  "env \<Rightarrow> createPurchaseBody \<Rightarrow> store \<Rightarrow> (error + purchase \<times> customer) \<times> store" where
  \<comment> \<open>Modelled from the spec: the three \<open>increment\<close>s are carried out by the store, whose
      schema is not among the sources; they are the sums of the specification\<close>
  "createPurchase e b s =
     (case customer_findUnique (cp_customerId b) s of
        None \<Rightarrow> (Inl NotFound, s)
      | Some c \<Rightarrow>
          (case calculatePoints (cp_amount b) (role_name (role c)) of
             None \<Rightarrow> (Inl InternalError, s)  \<comment> \<open>the store refuses \<open>NaN\<close>\<close>
           | Some earned \<Rightarrow>
               let receipt = (case cp_receiptNumber b of
                                Some r \<Rightarrow> if r \<noteq> [] then r else generateReceiptNumber e
                              | None \<Rightarrow> generateReceiptNumber e);
                   p = \<lparr>purchase_id = env_uuid e, purchase_customerId = cp_customerId b,
                        amount = cp_amount b, pointsEarned = earned,
                        receiptNumber = receipt, timestamp = env_now e\<rparr>
               in (case purchase_create p s of
                     None \<Rightarrow> (Inl InternalError, s)
                   | Some s1 \<Rightarrow>
                       (case customer_update (cp_customerId b)
                               (\<lambda>d. d\<lparr>points := points d + earned,
                                      totalSpent := totalSpent d + cp_amount b,
                                      visitCount := visitCount d + 1,
                                      role := autoUpgrade (role c) (visitCount c + 1)\<rparr>) s1 of
                          None \<Rightarrow> (Inl InternalError, s)
                        | Some s2 \<Rightarrow>
                            (case customer_findUnique (cp_customerId b) s2 of
                               None \<Rightarrow> (Inl InternalError, s)
                             | Some c' \<Rightarrow> (Inr (p, c'), s2))))))"

subsection \<open>Coupons (controllers/couponController.ts)\<close>

definition nextCouponCode :: "env \<Rightarrow> store \<Rightarrow> string" where
  \<comment> \<open>\<open>// Generate coupon code\<close>, the lines of \<open>createCoupon\<close> from \<open>lastCoupon\<close> to
      \<open>couponCode\<close>\<close>
  "nextCouponCode e s =
     (let lastCoupon = findFirst_desc code (coupons s);
          lastIdNumber =
            (case lastCoupon of
               Some k \<Rightarrow> parseInt_at (split (CHR ''-'') (code k)) 2
             | None \<Rightarrow> Finite 0)
      in generateCouponCode e lastIdNumber)"

definition createCoupon ::
  "env \<Rightarrow> user \<Rightarrow> string \<Rightarrow> store \<Rightarrow> (error + coupon) \<times> store" where
  \<comment> \<open>\<open>redeemed\<close> and \<open>redeemedAt\<close> are not in \<open>data\<close>: the new row has the defaults of
      the schema, false and empty by the specification and the documented response\<close>
  "createCoupon e u customerId s =
     (if user_role u \<noteq> ADMIN \<and> user_id u \<noteq> customerId then (Inl Forbidden, s)
      else (case customer_findUnique customerId s of
              None \<Rightarrow> (Inl NotFound, s)
            | Some c \<Rightarrow>
                if points c < 100 then (Inl InsufficientPoints, s)
                else
                  let k = \<lparr>coupon_id = env_uuid e,
                           code = nextCouponCode e s,
                           coupon_customerId = customerId, coupon_value = 1000,
                           coupon_createdAt = env_now e,
                           redeemed = False, redeemedAt = None\<rparr>
                  in (case coupon_create k s of
                        None \<Rightarrow> (Inl InternalError, s)
                      | Some s1 \<Rightarrow>
                          (case customer_update customerId
                                  (\<lambda>d. d\<lparr>points := points d - 100\<rparr>) s1 of
                             None \<Rightarrow> (Inl InternalError, s)
                           | Some s2 \<Rightarrow> (Inr k, s2)))))"

definition lookupCoupon :: "string \<Rightarrow> store \<Rightarrow> (error + coupon) \<times> store" where
  "lookupCoupon k s =
     (case coupon_findUnique k s of
        None \<Rightarrow> (Inl NotFound, s)
      | Some c \<Rightarrow> (Inr c, s))"

definition redeemCoupon :: "env \<Rightarrow> string \<Rightarrow> store \<Rightarrow> (error + coupon) \<times> store" where
  "redeemCoupon e k s =
     (case coupon_findUnique k s of
        None \<Rightarrow> (Inl NotFound, s)
      | Some c \<Rightarrow>
          if redeemed c then (Inl AlreadyRedeemed, s)
          else (case coupon_update k
                       (\<lambda>d. d\<lparr>redeemed := True, redeemedAt := Some (env_now e)\<rparr>) s of
                  None \<Rightarrow> (Inl InternalError, s)
                | Some s' \<Rightarrow>
                    (case coupon_findUnique k s' of
                       None \<Rightarrow> (Inl InternalError, s)
                     | Some c' \<Rightarrow> (Inr c', s'))))"

subsection \<open>Routes and request sequences\<close>

text \<open>
  A route runs its validation middleware and then its controller. The token check and
  the administrator gate of the routes are not among the sources and are left out: the
  request sequences below contain those that pass the gates, and more.
\<close>

datatype request =
    PostCustomers createCustomerBody
  | PutCustomer user string updateCustomerBody
  | DeleteCustomer string
  | PostPurchases createPurchaseBody
  | PostCoupons user string
  | PostCouponLookup string
  | PutCouponRedeem string

fun handle :: "env \<Rightarrow> request \<Rightarrow> store \<Rightarrow> store" where
  \<comment> \<open>the store after a request\<close>
  "handle e (PostCustomers b) s =
     snd (validate (createCustomerSchema e b) (createCustomer e b s) s)"
| "handle e (PutCustomer u i b) s =
     snd (validate (updateCustomerSchema e b) (updateCustomer u i b s) s)"
| "handle e (DeleteCustomer i) s = snd (deleteCustomer i s)"
| "handle e (PostPurchases b) s =
     snd (validate (createPurchaseSchema b) (createPurchase e b s) s)"
| "handle e (PostCoupons u i) s = snd (createCoupon e u i s)"
| "handle e (PostCouponLookup k) s = snd (validate (1 \<le> length k) (lookupCoupon k s) s)"
| "handle e (PutCouponRedeem k) s = snd (redeemCoupon e k s)"

fun run :: "(env \<times> request) list \<Rightarrow> store \<Rightarrow> store" where
  "run [] s = s"
| "run ((e, r) # rs) s = run rs (handle e r s)"

definition ids_distinct :: "store \<Rightarrow> bool" where
  \<comment> \<open>the primary key of the customer table\<close>
  "ids_distinct s = distinct (map customer_id (customers s))"

definition points_ok :: "store \<Rightarrow> bool" where
  "points_ok s = list_all (\<lambda>c. 0 \<le> points c) (customers s)"

definition store_ok :: "store \<Rightarrow> bool" where
  "store_ok s = (ids_distinct s \<and> points_ok s)"

section \<open>The rules as the specification words them\<close>

definition roleAfterVisit :: "role \<Rightarrow> int \<Rightarrow> role" where
  "roleAfterVisit currentRole newVisitCount =
     (if currentRole = ADMIN then ADMIN
      else if newVisitCount \<ge> 50 then OWNER
      else if newVisitCount \<ge> 20 then LOYAL
      else currentRole)"

definition lower_tier :: "role \<Rightarrow> role \<Rightarrow> bool" where
  \<comment> \<open>\<open>lower_tier a b\<close>: \<open>a\<close> is below \<open>b\<close> in the order \<open>NORMAL < LOYAL < OWNER\<close>\<close>
  "lower_tier a b =
     ((a = NORMAL \<and> b = LOYAL) \<or> (a = NORMAL \<and> b = OWNER) \<or> (a = LOYAL \<and> b = OWNER))"

section \<open>The seed data (utils/seed.ts)\<close>

text \<open>
  The rows of the seed script. The ids are the store's; \<open>admin\<close>, \<open>cust1\<close>, \<open>cust2\<close> and
  \<open>cust3\<close> stand for them.
\<close>

definition day :: int where
  "day = 24 * 60 * 60 * 1000"

definition seed :: "env \<Rightarrow> store" where
  "seed e =
     \<lparr>customers =
        [\<lparr>customer_id = ''admin'', loyaltyId = ''ADMIN001'', name = ''Admin User'',
          email = ''admin@fastfood.hu'', phone = ''+36301234567'',
          pinCode = env_hashPassword e ''12345678'',
          points = 0, totalSpent = 0, visitCount = 0, role = ADMIN,
          customer_createdAt = env_now e\<rparr>,
         \<lparr>customer_id = ''cust1'', loyaltyId = ''CUST001'', name = ''Nagy Peter'',
          email = ''peter.nagy@email.hu'', phone = ''+36301111111'',
          pinCode = env_hashPassword e ''11111111'',
          points = 85, totalSpent = 12500, visitCount = 12, role = NORMAL,
          customer_createdAt = env_now e\<rparr>,
         \<lparr>customer_id = ''cust2'', loyaltyId = ''CUST002'', name = ''Kovacs Anna'',
          email = ''anna.kovacs@email.hu'', phone = ''+36302222222'',
          pinCode = env_hashPassword e ''22222222'',
          points = 140, totalSpent = 32000, visitCount = 25, role = LOYAL,
          customer_createdAt = env_now e\<rparr>,
         \<lparr>customer_id = ''cust3'', loyaltyId = ''CUST003'', name = ''Szabo Janos'',
          email = ''janos.szabo@email.hu'', phone = ''+36303333333'',
          pinCode = env_hashPassword e ''33333333'',
          points = 220, totalSpent = 65000, visitCount = 45, role = OWNER,
          customer_createdAt = env_now e\<rparr>],
      purchases =
        [\<lparr>purchase_id = ''p1'', purchase_customerId = ''cust1'', amount = 2500,
          pointsEarned = 27, receiptNumber = ''RCP-001'', timestamp = env_now e - 2 * day\<rparr>,
         \<lparr>purchase_id = ''p2'', purchase_customerId = ''cust2'', amount = 3200,
          pointsEarned = 44, receiptNumber = ''RCP-002'', timestamp = env_now e - 5 * day\<rparr>,
         \<lparr>purchase_id = ''p3'', purchase_customerId = ''cust3'', amount = 4500,
          pointsEarned = 76, receiptNumber = ''RCP-003'', timestamp = env_now e - 7 * day\<rparr>],
      coupons =
        [\<lparr>coupon_id = ''k1'', code = ''COUP-2024-001'', coupon_customerId = ''cust2'',
          coupon_value = 1000, coupon_createdAt = env_now e - 10 * day,
          redeemed = False, redeemedAt = None\<rparr>,
         \<lparr>coupon_id = ''k2'', code = ''COUP-2024-002'', coupon_customerId = ''cust3'',
          coupon_value = 1000, coupon_createdAt = env_now e - 20 * day,
          redeemed = True, redeemedAt = Some (env_now e - 15 * day)\<rparr>]\<rparr>"

text \<open>An environment for the examples; its two library functions are stand-ins.\<close>

definition env0 :: env where
  "env0 =
     \<lparr>env_now = 1704967200000, env_year = 2024, env_random = 1 / 2, env_uuid = ''new'',
      env_hashPassword = (\<lambda>p. ''#'' @ p), env_isEmail = (\<lambda>a. CHR ''@'' \<in> set a)\<rparr>"

definition token :: "customer \<Rightarrow> user" where
  \<comment> \<open>\<open>tokenPayload\<close> of \<open>login\<close>\<close>
  "token c = \<lparr>user_id = customer_id c, user_loyaltyId = loyaltyId c, user_role = role c\<rparr>"

text \<open>
  The seed when a thousand coupons have been created in 2024; of these, the rows that
  matter are the last two.
\<close>

definition seed_2024_full :: store where
  "seed_2024_full =
     (seed env0)\<lparr>coupons := coupons (seed env0) @
        [\<lparr>coupon_id = ''k999'', code = ''COUP-2024-999'', coupon_customerId = ''cust3'',
          coupon_value = 1000, coupon_createdAt = env_now env0,
          redeemed = False, redeemedAt = None\<rparr>,
         \<lparr>coupon_id = ''k1000'', code = ''COUP-2024-1000'', coupon_customerId = ''cust3'',
          coupon_value = 1000, coupon_createdAt = env_now env0,
          redeemed = False, redeemedAt = None\<rparr>]\<rparr>"

text \<open>A sequence of requests on the seed, for the examples.\<close>

definition requests0 :: "(env \<times> request) list" where
  "requests0 =
     [(env0, PostCoupons (token (customers (seed env0) ! 2)) ''cust2''),
      (env0, PostCoupons (token (customers (seed env0) ! 2)) ''cust2''),
      (env0, PostPurchases
               \<lparr>cp_customerId = ''cust1'', cp_amount = 2500, cp_receiptNumber = None\<rparr>),
      (env0, PutCustomer (token (customers (seed env0) ! 1)) ''cust1''
               \<lparr>u_name = None, u_email = None, u_phone = None, u_points = Some (- 5),
                u_role = None\<rparr>),
      (env0, PutCustomer (token (customers (seed env0) ! 1)) ''cust1''
               \<lparr>u_name = None, u_email = None, u_phone = None, u_points = Some 0,
                u_role = None\<rparr>),
      (env0, PutCouponRedeem ''COUP-2024-003''),
      (env0, PostCustomers
               \<lparr>cc_name = ''Test User'', cc_email = ''test@example.com'',
                cc_phone = ''+36301234567'', cc_pinCode = Some ''12345678''\<rparr>)]"

declare bitlen.simps [simp del]
declare dec.simps [simp del]
declare ipow.simps [simp del]

section \<open>Rounding\<close>

lemma pow2_powi: "pow2 e = 2 powi e"
  by (simp add: pow2_def power_int_def field_simps)

lemma pow2_pos: "0 < pow2 e"
  by (simp add: pow2_powi)

lemma pow2_add: "pow2 (a + b) = pow2 a * pow2 b"
  by (simp add: pow2_powi power_int_add)

lemma pow2_mono: "a \<le> b \<Longrightarrow> pow2 a \<le> pow2 b"
  by (simp add: pow2_powi power_int_increasing)

lemma pow2_nat: "0 \<le> e \<Longrightarrow> pow2 e = 2 ^ nat e"
  by (simp add: pow2_def)

lemma bitlen_nonneg: "0 \<le> bitlen n"
  by (induction n rule: bitlen.induct) (subst bitlen.simps, simp)

lemma bitlen_bounds:
  "0 < n \<Longrightarrow> 2 ^ nat (bitlen n - 1) \<le> n \<and> n < 2 ^ nat (bitlen n)"
proof (induction n rule: bitlen.induct)
  case (1 n)
  show ?case
  proof (cases "n = 1")
    case True
    have "bitlen 1 = 1"
      by (subst bitlen.simps, subst bitlen.simps) simp
    with True show ?thesis by simp
  next
    case False
    with 1 have pos: "0 < n div 2" by simp
    from 1 pos have IH: "2 ^ nat (bitlen (n div 2) - 1) \<le> n div 2" "n div 2 < 2 ^ nat (bitlen (n div 2))"
      by simp_all
    have b: "bitlen n = 1 + bitlen (n div 2)"
      using 1(2) by (subst bitlen.simps) simp
    have ge1: "1 \<le> bitlen (n div 2)"
      using pos by (subst bitlen.simps) (simp add: bitlen_nonneg)
    have "nat (bitlen n - 1) = Suc (nat (bitlen (n div 2) - 1))"
      using b ge1 by simp
    moreover have "nat (bitlen n) = Suc (nat (bitlen (n div 2)))"
      using b ge1 by simp
    moreover have "2 * (n div 2) \<le> n" "n < 2 * (n div 2) + 2"
      by simp_all
    ultimately show ?thesis using IH by simp
  qed
qed


lemma quotient_of_abs_pos:
  assumes "x \<noteq> 0" "quotient_of \<bar>x\<bar> = (p, q)"
  shows "0 < p" "0 < q" "\<bar>x\<bar> = of_int p / of_int q"
proof -
  show q: "0 < q" using assms(2) by (rule quotient_of_denom_pos)
  show eq: "\<bar>x\<bar> = of_int p / of_int q" using assms(2) by (rule quotient_of_div)
  have "0 < \<bar>x\<bar>" using assms(1) by simp
  with eq q show "0 < p" by (simp add: zero_less_divide_iff)
qed

lemma ilog2_bounds:
  assumes "x \<noteq> 0"
  shows "pow2 (ilog2 x) \<le> \<bar>x\<bar>" "\<bar>x\<bar> < pow2 (ilog2 x + 1)"
proof -
  obtain p q where pq: "quotient_of \<bar>x\<bar> = (p, q)" by (cases "quotient_of \<bar>x\<bar>")
  note f = quotient_of_abs_pos [OF assms pq]
  define e where "e = bitlen p - bitlen q"
  have il: "ilog2 x = (if pow2 e \<le> \<bar>x\<bar> then e else e - 1)"
    by (simp add: ilog2_def pq e_def)
  have bp: "2 ^ nat (bitlen p - 1) \<le> p" "p < 2 ^ nat (bitlen p)"
    using bitlen_bounds [OF f(1)] by simp_all
  have bq: "2 ^ nat (bitlen q - 1) \<le> q" "q < 2 ^ nat (bitlen q)"
    using bitlen_bounds [OF f(2)] by simp_all
  have p1: "1 \<le> bitlen p" using f(1) by (subst bitlen.simps) (simp add: bitlen_nonneg)
  have q1: "1 \<le> bitlen q" using f(2) by (subst bitlen.simps) (simp add: bitlen_nonneg)
  have P: "pow2 (bitlen p - 1) \<le> of_int p" "of_int p < pow2 (bitlen p)"
  proof -
    have "(of_int (2 ^ nat (bitlen p - 1)) :: rat) \<le> of_int p"
      using bp(1) by (simp only: of_int_le_iff)
    then show "pow2 (bitlen p - 1) \<le> of_int p" using p1 by (simp add: pow2_nat)
    have "(of_int p :: rat) < of_int (2 ^ nat (bitlen p))"
      using bp(2) by (simp only: of_int_less_iff)
    then show "of_int p < pow2 (bitlen p)" using p1 by (simp add: pow2_nat)
  qed
  have Q: "pow2 (bitlen q - 1) \<le> of_int q" "of_int q < pow2 (bitlen q)"
  proof -
    have "(of_int (2 ^ nat (bitlen q - 1)) :: rat) \<le> of_int q"
      using bq(1) by (simp only: of_int_le_iff)
    then show "pow2 (bitlen q - 1) \<le> of_int q" using q1 by (simp add: pow2_nat)
    have "(of_int q :: rat) < of_int (2 ^ nat (bitlen q))"
      using bq(2) by (simp only: of_int_less_iff)
    then show "of_int q < pow2 (bitlen q)" using q1 by (simp add: pow2_nat)
  qed
  have qpos: "(0::rat) < of_int q" using f(2) by simp
  have up: "\<bar>x\<bar> < pow2 (e + 1)"
  proof -
    have "of_int p < pow2 (e + 1) * pow2 (bitlen q - 1)"
      using P(2) by (simp add: pow2_add [symmetric] e_def)
    also have "\<dots> \<le> pow2 (e + 1) * of_int q"
      using Q(1) pow2_pos [of "e + 1"] by simp
    finally show ?thesis using qpos by (simp add: f(3) pos_divide_less_eq)
  qed
  have low: "pow2 (e - 1) \<le> \<bar>x\<bar>"
  proof -
    have "pow2 (e - 1) * of_int q \<le> pow2 (e - 1) * pow2 (bitlen q)"
      using Q(2) pow2_pos [of "e - 1"] by simp
    also have "\<dots> = pow2 (bitlen p - 1)"
      by (simp add: pow2_add [symmetric] e_def)
    also have "\<dots> \<le> of_int p" by (rule P(1))
    finally show ?thesis using qpos by (simp add: f(3) pos_le_divide_eq)
  qed
  show "pow2 (ilog2 x) \<le> \<bar>x\<bar>" using low by (simp add: il)
  show "\<bar>x\<bar> < pow2 (ilog2 x + 1)" using up by (auto simp: il not_le)
qed


lemma round_half_even_upper: "of_int (round_half_even y) \<le> y + 1 / 2"
proof -
  define n where "n = \<lfloor>y\<rfloor>"
  have n: "of_int n \<le> y" by (simp add: n_def)
  consider "y - of_int n < 1 / 2" | "1 / 2 < y - of_int n" | "y - of_int n = 1 / 2"
    by linarith
  then show ?thesis
  proof cases
    case 1
    then have "round_half_even y = n" by (simp add: round_half_even_def Let_def n_def)
    with n show ?thesis by simp
  next
    case 2
    then have "round_half_even y = n + 1" by (simp add: round_half_even_def Let_def n_def)
    with 2 show ?thesis by simp
  next
    case 3
    then have "round_half_even y = n \<or> round_half_even y = n + 1"
      by (simp add: round_half_even_def Let_def n_def)
    with 3 show ?thesis by auto
  qed
qed

lemma round_half_even_ge: "of_int k \<le> y \<Longrightarrow> k \<le> round_half_even y"
proof -
  assume "of_int k \<le> y"
  then have "k \<le> \<lfloor>y\<rfloor>" by (simp add: le_floor_iff)
  then show ?thesis by (auto simp: round_half_even_def Let_def)
qed

lemma fl_nonneg: "0 \<le> x \<Longrightarrow> 0 \<le> fl x"
proof -
  assume x: "0 \<le> x"
  have "0 \<le> round_half_even (x / pow2 (ilog2 x - 52))"
    using x pow2_pos [of "ilog2 x - 52"] by (intro round_half_even_ge) simp
  then show ?thesis
    using pow2_pos [of "ilog2 x - 52"] by (simp add: fl_def Let_def)
qed

lemma floor_fl_div_100:
  assumes "0 \<le> a" "a < 2 ^ 53"
  shows "\<lfloor>fl (of_int a / 100)\<rfloor> = a div 100"
proof (cases "a = 0")
  case True
  then show ?thesis by (simp add: fl_def)
next
  case False
  define x :: rat where "x = of_int a / 100"
  define q where "q = a div 100"
  define e where "e = ilog2 x"
  define u where "u = pow2 (e - 52)"
  have xpos: "0 < x" using assms(1) False by (simp add: x_def)
  then have x0: "x \<noteq> 0" by simp
  have q0: "0 \<le> q" using assms(1) by (simp add: q_def pos_imp_zdiv_nonneg_iff)
  have a_eq: "a = 100 * q + a mod 100" by (simp add: q_def)
  have r: "0 \<le> a mod 100" "a mod 100 \<le> 99" by simp_all
  have xq: "of_int q \<le> x"
  proof -
    have "100 * q \<le> a" using a_eq r by linarith
    then have "(of_int (100 * q) :: rat) \<le> of_int a" by (simp only: of_int_le_iff)
    then show ?thesis by (simp add: x_def)
  qed
  have xq': "x \<le> of_int q + 99 / 100"
  proof -
    have "a \<le> 100 * q + 99" using a_eq r by linarith
    then have "(of_int a :: rat) \<le> of_int (100 * q + 99)" by (simp only: of_int_le_iff)
    then show ?thesis by (simp add: x_def)
  qed
  have x47: "x < pow2 47"
  proof -
    have "(of_int a :: rat) < of_int (2 ^ 53)" using assms(2) by (simp only: of_int_less_iff)
    then show ?thesis by (simp add: x_def pow2_def)
  qed
  have e46: "e \<le> 46"
  proof (rule ccontr)
    assume "\<not> e \<le> 46"
    then have "pow2 47 \<le> pow2 e" by (intro pow2_mono) simp
    also have "\<dots> \<le> x" using ilog2_bounds(1) [OF x0] xpos by (simp add: e_def)
    finally show False using x47 by simp
  qed
  have upos: "0 < u" by (simp add: u_def pow2_pos)
  have u64: "u \<le> 1 / 64"
  proof -
    have "u \<le> pow2 (- 6)" unfolding u_def using e46 by (intro pow2_mono) simp
    then show ?thesis by (simp add: pow2_def)
  qed
  have flx: "fl x = of_int (round_half_even (x / u)) * u"
    using x0 by (simp add: fl_def Let_def u_def e_def)
  have upper: "fl x < of_int q + 1"
  proof -
    have "of_int (round_half_even (x / u)) * u \<le> (x / u + 1 / 2) * u"
      using round_half_even_upper [of "x / u"] upos by (simp only: mult_le_cancel_right_pos)
    also have "\<dots> = x + u / 2" using upos by (simp add: field_simps)
    also have "\<dots> < of_int q + 1" using xq' u64 by simp
    finally show ?thesis by (simp add: flx)
  qed
  have lower: "of_int q \<le> fl x"
  proof -
    define k where "k = nat (52 - e)"
    have uk: "u = 1 / 2 ^ k" using e46 by (simp add: u_def pow2_def k_def)
    have "(of_int (q * 2 ^ k) :: rat) = of_int q / u" by (simp add: uk)
    also have "\<dots> \<le> x / u" using xq upos by (simp add: divide_le_cancel)
    finally have "q * 2 ^ k \<le> round_half_even (x / u)" by (rule round_half_even_ge)
    then have "(of_int (q * 2 ^ k) :: rat) \<le> of_int (round_half_even (x / u))"
      by (simp only: of_int_le_iff)
    then have "of_int (q * 2 ^ k) * u \<le> of_int (round_half_even (x / u)) * u"
      using upos by (simp only: mult_le_cancel_right_pos)
    then show ?thesis by (simp add: flx uk)
  qed
  have "\<lfloor>fl x\<rfloor> = q" using lower upper by (simp add: floor_unique)
  then show ?thesis by (simp add: x_def q_def)
qed


subsection \<open>The points table\<close>

lemma fl_pos:
  assumes "0 < x"
  shows "0 < fl x"
proof -
  define u where "u = pow2 (ilog2 x - 52)"
  have upos: "0 < u" by (simp add: u_def pow2_pos)
  have x0: "x \<noteq> 0" using assms by simp
  have "pow2 52 * u = pow2 (ilog2 x)"
    by (simp add: u_def pow2_add [symmetric])
  also have "\<dots> \<le> x" using ilog2_bounds(1) [OF x0] assms by simp
  finally have "pow2 52 \<le> x / u" using upos by (simp add: pos_le_divide_eq)
  moreover have "(1::rat) \<le> pow2 52" by (simp add: pow2_def)
  ultimately have "of_int 1 \<le> x / u" by simp
  then have "1 \<le> round_half_even (x / u)" by (rule round_half_even_ge)
  then have "(0::rat) < of_int (round_half_even (x / u))" by simp
  then have "0 < of_int (round_half_even (x / u)) * u" using upos by simp
  then show ?thesis using x0 by (simp add: fl_def Let_def u_def)
qed

lemma fl_1: "fl 1 = 1"
  by code_simp

lemma fl_multipliers:
  "fl (11 / 10) = 2476979795053773 / 2251799813685248"
  "fl (14 / 10) = 3152519739159347 / 2251799813685248"
  "fl (17 / 10) = 7656119366529843 / 4503599627370496"
  by code_simp+

lemma fl_neq_0: "0 < x \<Longrightarrow> fl x \<noteq> 0"
  using fl_pos [of x] by simp

lemma multipliers_get_own:
  "multipliers_get ''NORMAL'' = Num (fl (11 / 10))"
  "multipliers_get ''LOYAL'' = Num (fl (14 / 10))"
  "multipliers_get ''OWNER'' = Num (fl (17 / 10))"
  "multipliers_get ''ADMIN'' = Num 1"
  by (simp_all add: multipliers_get_def multipliers_def fl_1)

lemma multipliers_get_other:
  assumes "r \<notin> set Object_prototype"
    and "r \<noteq> ''NORMAL''" "r \<noteq> ''LOYAL''" "r \<noteq> ''OWNER''" "r \<noteq> ''ADMIN''"
  shows "multipliers_get r = Undefined"
  using assms by (simp add: multipliers_get_def multipliers_def)

lemma multiplier_or:
  assumes "r \<notin> set Object_prototype"
  shows "js_or (multipliers_get r) (Num (fl 1)) = Num (multiplier_of r)"
proof -
  consider "r = ''NORMAL''" | "r = ''LOYAL''" | "r = ''OWNER''" | "r = ''ADMIN''"
    | "r \<noteq> ''NORMAL''" "r \<noteq> ''LOYAL''" "r \<noteq> ''OWNER''" "r \<noteq> ''ADMIN''"
    by blast
  then show ?thesis
  proof cases
    case 1
    then show ?thesis
      by (simp add: multipliers_get_own js_or_def multiplier_of_def fl_neq_0)
  next
    case 2
    then show ?thesis
      by (simp add: multipliers_get_own js_or_def multiplier_of_def fl_neq_0)
  next
    case 3
    then show ?thesis
      by (simp add: multipliers_get_own js_or_def multiplier_of_def fl_neq_0)
  next
    case 4
    then show ?thesis
      by (simp add: multipliers_get_own js_or_def multiplier_of_def fl_1)
  next
    case 5
    then show ?thesis
      using assms by (simp add: multipliers_get_other js_or_def multiplier_of_def fl_1)
  qed
qed

lemma multiplier_of_nonneg: "0 \<le> multiplier_of r"
  by (simp add: multiplier_of_def fl_nonneg)

lemma calculatePoints_eq:
  assumes "r \<notin> set Object_prototype"
  shows "calculatePoints a r
         = Some \<lfloor>fl (of_int \<lfloor>fl (a / 100)\<rfloor> * multiplier_of r)\<rfloor>"
  by (simp add: calculatePoints_def Let_def multiplier_or [OF assms] Math_floor_def)

lemma role_name_not_inherited: "role_name r \<notin> set Object_prototype"
  by (cases r) (simp_all add: Object_prototype_def)

lemma calculatePoints_role:
  "calculatePoints a (role_name r)
   = Some \<lfloor>fl (of_int \<lfloor>fl (a / 100)\<rfloor> * multiplier_of (role_name r))\<rfloor>"
  by (rule calculatePoints_eq [OF role_name_not_inherited])

lemma calculatePoints_nonneg:
  assumes "calculatePoints a (role_name r) = Some n" "0 \<le> a"
  shows "0 \<le> n"
proof -
  have "0 \<le> a / 100" using assms(2) by simp
  then have "0 \<le> fl (a / 100)" by (rule fl_nonneg)
  then have "0 \<le> \<lfloor>fl (a / 100)\<rfloor>" by simp
  then have "(0::rat) \<le> of_int \<lfloor>fl (a / 100)\<rfloor> * multiplier_of (role_name r)"
    using multiplier_of_nonneg [of "role_name r"] by simp
  then have "0 \<le> fl (of_int \<lfloor>fl (a / 100)\<rfloor> * multiplier_of (role_name r))"
    by (rule fl_nonneg)
  moreover have "n = \<lfloor>fl (of_int \<lfloor>fl (a / 100)\<rfloor> * multiplier_of (role_name r))\<rfloor>"
    using assms(1) by (simp add: calculatePoints_role)
  ultimately show ?thesis by simp
qed

text \<open>
  The table for a whole amount (below \<open>2^53\<close>, where a double holds every integer) and a
  role that is not the name of a member inherited from \<open>Object.prototype\<close>:
  \<open>calculatePoints\<close> returns the floor of the double product of \<open>floor(amount / 100)\<close>
  and the multiplier of the role.
\<close>

lemma calculatePoints_table:
  assumes "0 < a" "a < 2 ^ 53" "r \<notin> set Object_prototype"
  shows "calculatePoints (of_int a) r = Some (pointsForPurchase a r)"
    and "calculatePoints 99 r = Some 0"
proof -
  have "\<lfloor>fl (of_int a / 100)\<rfloor> = a div 100"
    using assms(1,2) by (intro floor_fl_div_100) simp_all
  then show "calculatePoints (of_int a) r = Some (pointsForPurchase a r)"
    by (simp add: calculatePoints_eq [OF assms(3)] pointsForPurchase_def)
  have "\<lfloor>fl (of_int 99 / 100)\<rfloor> = 99 div 100"
    by (intro floor_fl_div_100) simp_all
  then show "calculatePoints 99 r = Some 0"
    by (simp add: calculatePoints_eq [OF assms(3)] fl_def)
qed

text \<open>The roles a customer can have are the four of the table, and the table holds for each.\<close>

lemma calculatePoints_stored_roles:
  assumes "0 < a" "a < 2 ^ 53"
  shows "calculatePoints (of_int a) (role_name r) = Some (pointsForPurchase a (role_name r))"
    and "calculatePoints 99 (role_name r) = Some 0"
  using calculatePoints_table [OF assms role_name_not_inherited] by simp_all

lemma calculatePoints_examples:
  "calculatePoints 2500 ''NORMAL'' = Some 27"
  "calculatePoints 2500 ''LOYAL'' = Some 35"
  "calculatePoints 2500 ''OWNER'' = Some 42"
  "calculatePoints 2500 ''ADMIN'' = Some 25"
  "calculatePoints 2500 ''GUEST'' = Some 25"
  "calculatePoints 100 ''NORMAL'' = Some 1"
  by code_simp+

text \<open>The product is the double product: exact arithmetic would give one point more here.\<close>

lemma calculatePoints_rounding:
  "calculatePoints 4500 ''LOYAL'' = Some 62 \<and> \<lfloor>(45 :: rat) * (14 / 10)\<rfloor> = 63"
  by code_simp


section \<open>Purchases\<close>

subsection \<open>Promotion\<close>

lemma autoUpgrade_roleAfterVisit:
  "r \<noteq> ADMIN \<or> n < 20 \<Longrightarrow> autoUpgrade r n = roleAfterVisit r n"
  by (auto simp: autoUpgrade_def roleAfterVisit_def)

lemma autoUpgrade_lowers_iff:
  "lower_tier (autoUpgrade r n) r \<longleftrightarrow> r = OWNER \<and> 20 \<le> n \<and> n < 50"
  by (cases r) (auto simp: autoUpgrade_def lower_tier_def)

lemma autoUpgrade_differs_iff:
  "autoUpgrade r n \<noteq> roleAfterVisit r n \<longleftrightarrow> r = ADMIN \<and> 20 \<le> n"
  by (cases r) (auto simp: autoUpgrade_def roleAfterVisit_def)

text \<open>
  C2. Recording a purchase never lowers a role in the order \<open>NORMAL < LOYAL < OWNER\<close>.
  The code does lower one: the seeded customer \<open>CUST003\<close> is an \<open>OWNER\<close> with 45
  visits, and the next purchase makes the role \<open>LOYAL\<close>.
\<close>

theorem createPurchase_lowers_owner:
  "map_option role (customer_findUnique ''cust3'' (seed env0)) = Some OWNER
   \<and> map_sum id (\<lambda>(p, c). (visitCount c, role c))
        (fst (createPurchase env0
               \<lparr>cp_customerId = ''cust3'', cp_amount = 4500, cp_receiptNumber = None\<rparr>
               (seed env0)))
     = Inr (46, LOYAL)
   \<and> autoUpgrade OWNER 46 = LOYAL
   \<and> lower_tier LOYAL OWNER"
  by code_simp

text \<open>
  C3. The role after a visit is \<open>ADMIN\<close> for an \<open>ADMIN\<close>, else \<open>OWNER\<close> from 50 visits,
  else \<open>LOYAL\<close> from 20 visits, else unchanged. The code has no case for \<open>ADMIN\<close>: the
  twentieth purchase recorded for the seeded administrator makes the role \<open>LOYAL\<close>.
\<close>

theorem autoUpgrade_admin:
  "autoUpgrade ADMIN 20 = LOYAL \<and> roleAfterVisit ADMIN 20 = ADMIN
   \<and> autoUpgrade ADMIN 50 = OWNER \<and> roleAfterVisit ADMIN 50 = ADMIN
   \<and> map_option (\<lambda>c. (visitCount c, role c))
        (customer_findUnique ''admin''
          (run (replicate 20
                 (env0, PostPurchases
                          \<lparr>cp_customerId = ''admin'', cp_amount = 2500,
                           cp_receiptNumber = None\<rparr>))
               (seed env0)))
     = Some (20, LOYAL)"
  by code_simp

section \<open>Redeeming a coupon\<close>

lemma find_map_update:
  assumes "\<And>x. P x \<Longrightarrow> P (f x)"
  shows "find P (map (\<lambda>x. if P x then f x else x) xs) = map_option f (find P xs)"
  using assms by (induction xs) auto

lemma find_map_other:
  assumes "\<And>x. Q x \<Longrightarrow> \<not> P x" "\<And>x. Q x \<Longrightarrow> \<not> P (f x)"
  shows "find P (map (\<lambda>x. if Q x then f x else x) xs) = find P xs"
  using assms by (induction xs) auto

lemma find_append_new:
  "find P xs = None \<Longrightarrow> find P (xs @ [x]) = (if P x then Some x else None)"
  by (induction xs) (auto split: if_splits)

lemma find_append_old:
  "find P xs = Some y \<Longrightarrow> find P (xs @ zs) = Some y"
  by (induction xs) (auto split: if_splits)

text \<open>
  C5. \<open>redeemCoupon\<close> fails with \<open>NotFound\<close> when no coupon has the code and with
  \<open>AlreadyRedeemed\<close> when the coupon is redeemed, both without a change of the store.
  Otherwise it sets \<open>redeemed\<close> and \<open>redeemedAt\<close> on the coupons of that code and on
  nothing else: no customer and no purchase changes. A second redemption of the code
  then fails with \<open>AlreadyRedeemed\<close> and changes nothing.
\<close>

theorem redeemCoupon_cases:
  "(coupon_findUnique k s = None \<longrightarrow> redeemCoupon e k s = (Inl NotFound, s))
   \<and> (\<forall>c. coupon_findUnique k s = Some c \<and> redeemed c
          \<longrightarrow> redeemCoupon e k s = (Inl AlreadyRedeemed, s))
   \<and> (\<forall>c. coupon_findUnique k s = Some c \<and> \<not> redeemed c
          \<longrightarrow> (\<exists>s'. redeemCoupon e k s
                       = (Inr (c\<lparr>redeemed := True, redeemedAt := Some (env_now e)\<rparr>), s')
                     \<and> customers s' = customers s
                     \<and> purchases s' = purchases s
                     \<and> coupons s'
                        = map (\<lambda>d. if code d = k
                                    then d\<lparr>redeemed := True, redeemedAt := Some (env_now e)\<rparr>
                                    else d) (coupons s)
                     \<and> redeemCoupon e' k s' = (Inl AlreadyRedeemed, s')))"
proof (intro conjI allI impI)
  assume "coupon_findUnique k s = None"
  then show "redeemCoupon e k s = (Inl NotFound, s)"
    by (simp add: redeemCoupon_def)
next
  fix c
  assume "coupon_findUnique k s = Some c \<and> redeemed c"
  then show "redeemCoupon e k s = (Inl AlreadyRedeemed, s)"
    by (simp add: redeemCoupon_def)
next
  fix c
  assume a: "coupon_findUnique k s = Some c \<and> \<not> redeemed c"
  define f where "f = (\<lambda>d :: coupon. d\<lparr>redeemed := True, redeemedAt := Some (env_now e)\<rparr>)"
  define s' where "s' = s\<lparr>coupons := map (\<lambda>d. if code d = k then f d else d) (coupons s)\<rparr>"
  have upd: "coupon_update k f s = Some s'"
    using a by (simp add: coupon_update_def s'_def)
  have found: "coupon_findUnique k s' = Some (f c)"
    using a find_map_update [of "\<lambda>d. code d = k" f "coupons s"]
    by (simp add: coupon_findUnique_def s'_def f_def)
  have r1: "redeemCoupon e k s = (Inr (f c), s')"
    using a upd found by (simp add: redeemCoupon_def f_def [symmetric])
  have r2: "redeemCoupon e' k s' = (Inl AlreadyRedeemed, s')"
    using found by (simp add: redeemCoupon_def f_def)
  show "\<exists>s'. redeemCoupon e k s
              = (Inr (c\<lparr>redeemed := True, redeemedAt := Some (env_now e)\<rparr>), s')
            \<and> customers s' = customers s
            \<and> purchases s' = purchases s
            \<and> coupons s'
               = map (\<lambda>d. if code d = k
                           then d\<lparr>redeemed := True, redeemedAt := Some (env_now e)\<rparr>
                           else d) (coupons s)
            \<and> redeemCoupon e' k s' = (Inl AlreadyRedeemed, s')"
    using r1 r2 by (intro exI [of _ s']) (simp add: s'_def f_def)
qed

theorem redeemCoupon_cases_witness:
  "coupon_findUnique ''COUP-2024-009'' (seed env0) = None
   \<and> redeemCoupon env0 ''COUP-2024-009'' (seed env0) = (Inl NotFound, seed env0)
   \<and> map_option redeemed (coupon_findUnique ''COUP-2024-002'' (seed env0)) = Some True
   \<and> redeemCoupon env0 ''COUP-2024-002'' (seed env0) = (Inl AlreadyRedeemed, seed env0)
   \<and> map_option redeemed (coupon_findUnique ''COUP-2024-001'' (seed env0)) = Some False
   \<and> map_sum id (\<lambda>c. (redeemed c, redeemedAt c))
        (fst (redeemCoupon env0 ''COUP-2024-001'' (seed env0)))
      = Inr (True, Some (env_now env0))
   \<and> fst (redeemCoupon env0 ''COUP-2024-001''
             (snd (redeemCoupon env0 ''COUP-2024-001'' (seed env0))))
      = Inl AlreadyRedeemed"
proof -
  obtain c where c: "coupon_findUnique ''COUP-2024-001'' (seed env0) = Some c" "\<not> redeemed c"
    by (simp add: coupon_findUnique_def seed_def)
  have n: "coupon_findUnique ''COUP-2024-009'' (seed env0) = None"
    by (simp add: coupon_findUnique_def seed_def)
  obtain d where d: "coupon_findUnique ''COUP-2024-002'' (seed env0) = Some d" "redeemed d"
    by (simp add: coupon_findUnique_def seed_def)
  note t = redeemCoupon_cases [of "''COUP-2024-009''" "seed env0" env0 env0]
    redeemCoupon_cases [of "''COUP-2024-002''" "seed env0" env0 env0]
    redeemCoupon_cases [of "''COUP-2024-001''" "seed env0" env0 env0]
  from t(1) n have 1: "redeemCoupon env0 ''COUP-2024-009'' (seed env0) = (Inl NotFound, seed env0)"
    by blast
  from t(2) d have 2: "redeemCoupon env0 ''COUP-2024-002'' (seed env0) = (Inl AlreadyRedeemed, seed env0)"
    by blast
  from t(3) c obtain s' where 3:
    "redeemCoupon env0 ''COUP-2024-001'' (seed env0)
       = (Inr (c\<lparr>redeemed := True, redeemedAt := Some (env_now env0)\<rparr>), s')"
    "redeemCoupon env0 ''COUP-2024-001'' s' = (Inl AlreadyRedeemed, s')"
    by blast
  show ?thesis using 1 2 3 n c d by simp
qed

section \<open>Recording a purchase\<close>

lemma customer_update_found:
  assumes "customer_findUnique i s = Some c" "\<And>d. customer_id (f d) = customer_id d"
  shows "customer_update i f s
         = Some (s\<lparr>customers := map (\<lambda>d. if customer_id d = i then f d else d) (customers s)\<rparr>)"
    and "customer_findUnique i
           (s\<lparr>customers := map (\<lambda>d. if customer_id d = i then f d else d) (customers s)\<rparr>)
         = Some (f c)"
proof -
  show "customer_update i f s
         = Some (s\<lparr>customers := map (\<lambda>d. if customer_id d = i then f d else d) (customers s)\<rparr>)"
    using assms(1) by (simp add: customer_update_def)
  show "customer_findUnique i
           (s\<lparr>customers := map (\<lambda>d. if customer_id d = i then f d else d) (customers s)\<rparr>)
         = Some (f c)"
    using assms find_map_update [of "\<lambda>d. customer_id d = i" f "customers s"]
    by (simp add: customer_findUnique_def)
qed

lemma createPurchase_result:
  assumes "customer_findUnique (cp_customerId b) s = Some c"
  shows "\<exists>earned p c' s'.
           calculatePoints (cp_amount b) (role_name (role c)) = Some earned
         \<and> createPurchase e b s = (Inr (p, c'), s')
         \<and> p = \<lparr>purchase_id = env_uuid e, purchase_customerId = cp_customerId b,
                 amount = cp_amount b, pointsEarned = earned,
                 receiptNumber = (case cp_receiptNumber b of
                                    Some r \<Rightarrow> if r \<noteq> [] then r else generateReceiptNumber e
                                  | None \<Rightarrow> generateReceiptNumber e),
                 timestamp = env_now e\<rparr>
         \<and> c' = c\<lparr>points := points c + earned,
                   totalSpent := totalSpent c + cp_amount b,
                   visitCount := visitCount c + 1,
                   role := autoUpgrade (role c) (visitCount c + 1)\<rparr>
         \<and> s' = \<lparr>customers =
                    map (\<lambda>d. if customer_id d = cp_customerId b
                              then d\<lparr>points := points d + earned,
                                     totalSpent := totalSpent d + cp_amount b,
                                     visitCount := visitCount d + 1,
                                     role := autoUpgrade (role c) (visitCount c + 1)\<rparr>
                              else d) (customers s),
                  purchases = purchases s @ [p],
                  coupons = coupons s\<rparr>
         \<and> customer_findUnique (cp_customerId b) s' = Some c'"
proof -
  obtain earned where earned: "calculatePoints (cp_amount b) (role_name (role c)) = Some earned"
    by (simp add: calculatePoints_role)
  define p where "p = \<lparr>purchase_id = env_uuid e, purchase_customerId = cp_customerId b,
                 amount = cp_amount b, pointsEarned = earned,
                 receiptNumber = (case cp_receiptNumber b of
                                    Some r \<Rightarrow> if r \<noteq> [] then r else generateReceiptNumber e
                                  | None \<Rightarrow> generateReceiptNumber e),
                 timestamp = env_now e\<rparr>"
  define f where "f = (\<lambda>d :: customer. d\<lparr>points := points d + earned,
                                     totalSpent := totalSpent d + cp_amount b,
                                     visitCount := visitCount d + 1,
                                     role := autoUpgrade (role c) (visitCount c + 1)\<rparr>)"
  define s1 where "s1 = s\<lparr>purchases := purchases s @ [p]\<rparr>"
  define s2 where "s2 = s1\<lparr>customers := map (\<lambda>d. if customer_id d = cp_customerId b then f d else d) (customers s1)\<rparr>"
  have c1: "customer_findUnique (cp_customerId b) s1 = Some c"
    using assms by (simp add: customer_findUnique_def s1_def)
  have fid: "\<And>d. customer_id (f d) = customer_id d" by (simp add: f_def)
  note u = customer_update_found [OF c1 fid]
  have r: "createPurchase e b s = (Inr (p, f c), s2)"
    using assms earned u
    by (simp add: createPurchase_def Let_def purchase_create_def p_def [symmetric]
        s1_def [symmetric] f_def [symmetric] s2_def [symmetric])
  have D: "customer_findUnique (cp_customerId b) s2 = Some (f c)"
    using u(2) by (simp add: s2_def)
  have A: "p = \<lparr>purchase_id = env_uuid e, purchase_customerId = cp_customerId b,
                 amount = cp_amount b, pointsEarned = earned,
                 receiptNumber = (case cp_receiptNumber b of
                                    Some r \<Rightarrow> if r \<noteq> [] then r else generateReceiptNumber e
                                  | None \<Rightarrow> generateReceiptNumber e),
                 timestamp = env_now e\<rparr>"
    by (simp add: p_def)
  have B: "f c = c\<lparr>points := points c + earned,
                   totalSpent := totalSpent c + cp_amount b,
                   visitCount := visitCount c + 1,
                   role := autoUpgrade (role c) (visitCount c + 1)\<rparr>"
    by (simp add: f_def)
  have C: "s2 = \<lparr>customers =
                    map (\<lambda>d. if customer_id d = cp_customerId b
                              then d\<lparr>points := points d + earned,
                                     totalSpent := totalSpent d + cp_amount b,
                                     visitCount := visitCount d + 1,
                                     role := autoUpgrade (role c) (visitCount c + 1)\<rparr>
                              else d) (customers s),
                  purchases = purchases s @ [p],
                  coupons = coupons s\<rparr>"
    by (rule store.equality) (simp_all add: s2_def s1_def f_def)
  show ?thesis
    by (intro exI conjI; (rule earned r A B C D))
qed

lemma validate_snd:
  "snd (validate ok r s) = (if ok then snd r else s)"
  by (simp add: validate_def)

lemma createCustomer_purchases: "purchases (snd (createCustomer e b s)) = purchases s"
  by (auto simp: createCustomer_def customer_create_def Let_def split: option.splits)

lemma customer_update_frame:
  "customer_update i f s = Some s' \<Longrightarrow> purchases s' = purchases s \<and> coupons s' = coupons s"
  by (auto simp: customer_update_def split: option.splits)

lemma updateCustomer_purchases: "purchases (snd (updateCustomer u i b s)) = purchases s"
  by (auto simp: updateCustomer_def customer_update_data_def
      dest: customer_update_frame split: option.splits if_splits)

lemma deleteCustomer_purchases:
  "purchases (snd (deleteCustomer i s)) = purchases s
   \<or> purchases (snd (deleteCustomer i s)) = filter (\<lambda>q. purchase_customerId q \<noteq> i) (purchases s)"
  by (auto simp: deleteCustomer_def customer_delete_def split: option.splits)

lemma createPurchase_purchases:
  "purchases (snd (createPurchase e b s)) = purchases s
   \<or> (\<exists>q. purchases (snd (createPurchase e b s)) = purchases s @ [q])"
  by (auto simp: createPurchase_def purchase_create_def Let_def
      dest!: customer_update_frame split: option.splits)

lemma createCoupon_purchases: "purchases (snd (createCoupon e u i s)) = purchases s"
  by (auto simp: createCoupon_def coupon_create_def Let_def
      dest!: customer_update_frame split: option.splits if_splits)

lemma redeemCoupon_purchases: "purchases (snd (redeemCoupon e k s)) = purchases s"
  by (auto simp: redeemCoupon_def coupon_update_def split: option.splits if_splits)

lemma lookupCoupon_store: "snd (lookupCoupon k s) = s"
  by (auto simp: lookupCoupon_def split: option.splits)

lemma handle_purchases:
  "purchases (handle e r s) = purchases s
   \<or> (\<exists>q. purchases (handle e r s) = purchases s @ [q])
   \<or> (\<exists>i. purchases (handle e r s) = filter (\<lambda>q. purchase_customerId q \<noteq> i) (purchases s))"
proof (cases r)
  case (PostCustomers b)
  then show ?thesis by (simp add: validate_snd createCustomer_purchases)
next
  case (PutCustomer u i b)
  then show ?thesis by (simp add: validate_snd updateCustomer_purchases)
next
  case (DeleteCustomer i)
  then show ?thesis using deleteCustomer_purchases [of i s] by auto
next
  case (PostPurchases b)
  then show ?thesis using createPurchase_purchases [of e b s] by (auto simp: validate_snd)
next
  case (PostCoupons u i)
  then show ?thesis by (simp add: createCoupon_purchases)
next
  case (PostCouponLookup k)
  then show ?thesis by (simp add: validate_snd lookupCoupon_store)
next
  case (PutCouponRedeem k)
  then show ?thesis by (simp add: redeemCoupon_purchases)
qed

text \<open>
  No later request rewrites a purchase row, and so its \<open>pointsEarned\<close>: a request leaves
  the purchases as they are, appends one, or deletes those of a deleted customer
  (\<open>handle_purchases\<close>). For a whole amount the points are those of the table, and for
  every customer but an administrator at the twentieth visit or later, the role is the
  one of the rule.
\<close>

lemma createPurchase_rule:
  assumes "customer_findUnique (cp_customerId b) s = Some c"
    and "cp_amount b = of_int a" "0 < a" "a < 2 ^ 53"
    and "role c \<noteq> ADMIN \<or> visitCount c + 1 < 20"
  shows "\<exists>p c' s'.
           createPurchase e b s = (Inr (p, c'), s')
         \<and> pointsEarned p = pointsForPurchase a (role_name (role c))
         \<and> amount p = of_int a
         \<and> c' = c\<lparr>points := points c + pointsForPurchase a (role_name (role c)),
                   totalSpent := totalSpent c + of_int a,
                   visitCount := visitCount c + 1,
                   role := roleAfterVisit (role c) (visitCount c + 1)\<rparr>
         \<and> customers s'
             = map (\<lambda>d. if customer_id d = cp_customerId b
                         then d\<lparr>points := points d + pointsForPurchase a (role_name (role c)),
                                totalSpent := totalSpent d + of_int a,
                                visitCount := visitCount d + 1,
                                role := roleAfterVisit (role c) (visitCount c + 1)\<rparr>
                         else d) (customers s)
         \<and> purchases s' = purchases s @ [p]
         \<and> coupons s' = coupons s"
proof -
  from createPurchase_result [OF assms(1), of e] obtain earned p c' s' where
    r: "calculatePoints (cp_amount b) (role_name (role c)) = Some earned"
      "createPurchase e b s = (Inr (p, c'), s')"
      "p = \<lparr>purchase_id = env_uuid e, purchase_customerId = cp_customerId b,
                 amount = cp_amount b, pointsEarned = earned,
                 receiptNumber = (case cp_receiptNumber b of
                                    Some r \<Rightarrow> if r \<noteq> [] then r else generateReceiptNumber e
                                  | None \<Rightarrow> generateReceiptNumber e),
                 timestamp = env_now e\<rparr>"
      "c' = c\<lparr>points := points c + earned,
                   totalSpent := totalSpent c + cp_amount b,
                   visitCount := visitCount c + 1,
                   role := autoUpgrade (role c) (visitCount c + 1)\<rparr>"
      "s' = \<lparr>customers =
                    map (\<lambda>d. if customer_id d = cp_customerId b
                              then d\<lparr>points := points d + earned,
                                     totalSpent := totalSpent d + cp_amount b,
                                     visitCount := visitCount d + 1,
                                     role := autoUpgrade (role c) (visitCount c + 1)\<rparr>
                              else d) (customers s),
                  purchases = purchases s @ [p],
                  coupons = coupons s\<rparr>"
    by blast
  have e: "earned = pointsForPurchase a (role_name (role c))"
    using r(1) calculatePoints_stored_roles(1) [OF assms(3,4), of "role c"]
    by (simp add: assms(2))
  have u: "autoUpgrade (role c) (visitCount c + 1) = roleAfterVisit (role c) (visitCount c + 1)"
    by (rule autoUpgrade_roleAfterVisit [OF assms(5)])
  have A: "pointsEarned p = pointsForPurchase a (role_name (role c))"
    by (simp add: r(3) e)
  have B: "amount p = of_int a"
    by (simp add: r(3) assms(2))
  have C: "c' = c\<lparr>points := points c + pointsForPurchase a (role_name (role c)),
                   totalSpent := totalSpent c + of_int a,
                   visitCount := visitCount c + 1,
                   role := roleAfterVisit (role c) (visitCount c + 1)\<rparr>"
    by (simp add: r(4) e u assms(2))
  have D: "customers s'
             = map (\<lambda>d. if customer_id d = cp_customerId b
                         then d\<lparr>points := points d + pointsForPurchase a (role_name (role c)),
                                totalSpent := totalSpent d + of_int a,
                                visitCount := visitCount d + 1,
                                role := roleAfterVisit (role c) (visitCount c + 1)\<rparr>
                         else d) (customers s)"
    by (simp add: r(5) e u assms(2))
  have E: "purchases s' = purchases s @ [p]" by (simp add: r(5))
  have F: "coupons s' = coupons s" by (simp add: r(5))
  show ?thesis
    by (intro exI conjI; (rule r(2) A B C D E F))
qed

text \<open>
  A purchase of the seeded customer \<open>CUST001\<close>, and one with an amount that is not whole,
  which the schema of the route lets pass.
\<close>

lemma createPurchase_seed:
  "map_sum id (\<lambda>(p, c). (pointsEarned p, points c, totalSpent c, visitCount c, role c))
        (fst (createPurchase env0
               \<lparr>cp_customerId = ''cust1'', cp_amount = 2500,
                cp_receiptNumber = Some ''RCP-004''\<rparr> (seed env0)))
     = Inr (27, 112, 15000, 13, NORMAL)"
  "length (purchases (snd (createPurchase env0
               \<lparr>cp_customerId = ''cust1'', cp_amount = 2500,
                cp_receiptNumber = Some ''RCP-004''\<rparr> (seed env0)))) = 4"
  by code_simp+

lemma createPurchase_fractional:
  "createPurchaseSchema \<lparr>cp_customerId = ''cust1'', cp_amount = 5101 / 2,
                          cp_receiptNumber = None\<rparr>"
  "map_sum id (\<lambda>(p, c). (amount p, pointsEarned p, points c, totalSpent c, visitCount c))
        (fst (createPurchase env0
               \<lparr>cp_customerId = ''cust1'', cp_amount = 5101 / 2,
                cp_receiptNumber = None\<rparr> (seed env0)))
     = Inr (5101 / 2, 27, 112, 30101 / 2, 13)"
  by code_simp+

text \<open>
  C6. Recording a purchase for an existing customer inserts one purchase row whose
  \<open>pointsEarned\<close> are the points of the table for the amount and the customer's role, adds
  those points to the customer's \<open>points\<close>, adds the amount to \<open>totalSpent\<close>, adds one to
  \<open>visitCount\<close> and sets the role by the rule, from the visit count after the increment;
  by the rule an administrator stays an administrator. The code writes the role with an
  expression of its own that has no case for \<open>ADMIN\<close>: the twentieth purchase recorded
  for the seeded administrator has all the other effects and makes the role \<open>LOYAL\<close>.
\<close>

theorem createPurchase_admin_role:
  "map_option (\<lambda>c. (points c, totalSpent c, visitCount c, role c))
      (customer_findUnique ''admin''
        (run (replicate 19
               (env0, PostPurchases
                        \<lparr>cp_customerId = ''admin'', cp_amount = 2500,
                         cp_receiptNumber = None\<rparr>))
             (seed env0)))
     = Some (475, 47500, 19, ADMIN)
   \<and> map_sum id (\<lambda>(p, c). (pointsEarned p, points c, totalSpent c, visitCount c, role c))
        (fst (createPurchase env0
               \<lparr>cp_customerId = ''admin'', cp_amount = 2500, cp_receiptNumber = None\<rparr>
               (run (replicate 19
                      (env0, PostPurchases
                               \<lparr>cp_customerId = ''admin'', cp_amount = 2500,
                                cp_receiptNumber = None\<rparr>))
                    (seed env0))))
     = Inr (25, 500, 50000, 20, LOYAL)
   \<and> pointsForPurchase 2500 ''ADMIN'' = 25
   \<and> roleAfterVisit ADMIN 20 = ADMIN"
  by code_simp

section \<open>Creating a coupon\<close>

lemma createCoupon_success:
  assumes "user_role u = ADMIN \<or> user_id u = i"
    and "customer_findUnique i s = Some c"
    and "100 \<le> points c"
    and "coupon_findUnique (nextCouponCode e s) s = None"
  shows "\<exists>k s'.
           createCoupon e u i s = (Inr k, s')
         \<and> k = \<lparr>coupon_id = env_uuid e, code = nextCouponCode e s,
                 coupon_customerId = i, coupon_value = 1000,
                 coupon_createdAt = env_now e, redeemed = False, redeemedAt = None\<rparr>
         \<and> s' = \<lparr>customers =
                    map (\<lambda>d. if customer_id d = i then d\<lparr>points := points d - 100\<rparr> else d)
                      (customers s),
                  purchases = purchases s,
                  coupons = coupons s @ [k]\<rparr>
         \<and> customer_findUnique i s' = Some (c\<lparr>points := points c - 100\<rparr>)"
proof -
  define k where "k = \<lparr>coupon_id = env_uuid e, code = nextCouponCode e s,
                 coupon_customerId = i, coupon_value = 1000,
                 coupon_createdAt = env_now e, redeemed = False, redeemedAt = None\<rparr>"
  define f where "f = (\<lambda>d :: customer. d\<lparr>points := points d - 100\<rparr>)"
  define s1 where "s1 = s\<lparr>coupons := coupons s @ [k]\<rparr>"
  define s2 where "s2 = s1\<lparr>customers := map (\<lambda>d. if customer_id d = i then f d else d) (customers s1)\<rparr>"
  have cc: "coupon_create k s = Some s1"
    using assms(4) by (simp add: coupon_create_def k_def s1_def)
  have c1: "customer_findUnique i s1 = Some c"
    using assms(2) by (simp add: customer_findUnique_def s1_def)
  have fid: "\<And>d. customer_id (f d) = customer_id d" by (simp add: f_def)
  note upd = customer_update_found [OF c1 fid]
  have r: "createCoupon e u i s = (Inr k, s2)"
    using assms(1,2,3) cc upd(1)
    by (auto simp: createCoupon_def Let_def k_def [symmetric] f_def [symmetric]
        s2_def [symmetric])
  have A: "k = \<lparr>coupon_id = env_uuid e, code = nextCouponCode e s,
                 coupon_customerId = i, coupon_value = 1000,
                 coupon_createdAt = env_now e, redeemed = False, redeemedAt = None\<rparr>"
    by (simp add: k_def)
  have C: "s2 = \<lparr>customers =
                    map (\<lambda>d. if customer_id d = i then d\<lparr>points := points d - 100\<rparr> else d)
                      (customers s),
                  purchases = purchases s,
                  coupons = coupons s @ [k]\<rparr>"
    by (rule store.equality) (simp_all add: s2_def s1_def f_def)
  have D: "customer_findUnique i s2 = Some (c\<lparr>points := points c - 100\<rparr>)"
    using upd(2) by (simp add: s2_def f_def)
  show ?thesis
    by (intro exI conjI; (rule r A C D))
qed

lemma createCoupon_insufficient:
  assumes "user_role u = ADMIN \<or> user_id u = i"
    and "customer_findUnique i s = Some c"
  shows "fst (createCoupon e u i s) = Inl InsufficientPoints \<longleftrightarrow> points c < 100"
    and "points c < 100 \<Longrightarrow> createCoupon e u i s = (Inl InsufficientPoints, s)"
  using assms
  by (auto simp: createCoupon_def Let_def split: option.splits)

lemma createCoupon_store_on_error:
  "fst (createCoupon e u i s) = Inl err \<Longrightarrow> snd (createCoupon e u i s) = s"
  by (auto simp: createCoupon_def Let_def split: option.splits if_splits)

text \<open>
  C4. For an existing customer and a caller who may act for it, \<open>createCoupon\<close> fails
  with \<open>InsufficientPoints\<close> exactly when the customer has fewer than 100 points, and
  then the store is unchanged. With 100 points or more, and when no coupon has the
  generated code yet, it succeeds: it appends a coupon of value 1000 that is not
  redeemed and takes exactly 100 points from the customer, and changes nothing else.
  With fewer than 200 points before, the next attempt is rejected; so 100 points permit
  one coupon and leave 0.
\<close>

theorem createCoupon_points:
  assumes "user_role u = ADMIN \<or> user_id u = i"
    and "customer_findUnique i s = Some c"
  shows "(fst (createCoupon e u i s) = Inl InsufficientPoints \<longleftrightarrow> points c < 100)
       \<and> (points c < 100 \<longrightarrow> createCoupon e u i s = (Inl InsufficientPoints, s))
       \<and> (100 \<le> points c \<and> coupon_findUnique (nextCouponCode e s) s = None \<longrightarrow>
            (\<exists>k s'.
               createCoupon e u i s = (Inr k, s')
             \<and> k = \<lparr>coupon_id = env_uuid e, code = nextCouponCode e s,
                     coupon_customerId = i, coupon_value = 1000,
                     coupon_createdAt = env_now e, redeemed = False, redeemedAt = None\<rparr>
             \<and> s' = \<lparr>customers =
                        map (\<lambda>d. if customer_id d = i then d\<lparr>points := points d - 100\<rparr>
                                  else d) (customers s),
                      purchases = purchases s,
                      coupons = coupons s @ [k]\<rparr>
             \<and> customer_findUnique i s' = Some (c\<lparr>points := points c - 100\<rparr>)
             \<and> (points c < 200 \<longrightarrow>
                  createCoupon e' u i s' = (Inl InsufficientPoints, s'))))"
proof (intro conjI impI)
  show "fst (createCoupon e u i s) = Inl InsufficientPoints \<longleftrightarrow> points c < 100"
    by (rule createCoupon_insufficient(1) [OF assms])
  show "points c < 100 \<Longrightarrow> createCoupon e u i s = (Inl InsufficientPoints, s)"
    by (rule createCoupon_insufficient(2) [OF assms])
next
  assume a: "100 \<le> points c \<and> coupon_findUnique (nextCouponCode e s) s = None"
  then obtain k s' where r:
    "createCoupon e u i s = (Inr k, s')"
    "k = \<lparr>coupon_id = env_uuid e, code = nextCouponCode e s,
                     coupon_customerId = i, coupon_value = 1000,
                     coupon_createdAt = env_now e, redeemed = False, redeemedAt = None\<rparr>"
    "s' = \<lparr>customers =
                        map (\<lambda>d. if customer_id d = i then d\<lparr>points := points d - 100\<rparr>
                                  else d) (customers s),
                      purchases = purchases s,
                      coupons = coupons s @ [k]\<rparr>"
    "customer_findUnique i s' = Some (c\<lparr>points := points c - 100\<rparr>)"
    using createCoupon_success [OF assms, of e] by blast
  have "points c < 200 \<longrightarrow> createCoupon e' u i s' = (Inl InsufficientPoints, s')"
    using createCoupon_insufficient(2) [OF assms(1) r(4), of e'] by simp
  with r show "\<exists>k s'.
               createCoupon e u i s = (Inr k, s')
             \<and> k = \<lparr>coupon_id = env_uuid e, code = nextCouponCode e s,
                     coupon_customerId = i, coupon_value = 1000,
                     coupon_createdAt = env_now e, redeemed = False, redeemedAt = None\<rparr>
             \<and> s' = \<lparr>customers =
                        map (\<lambda>d. if customer_id d = i then d\<lparr>points := points d - 100\<rparr>
                                  else d) (customers s),
                      purchases = purchases s,
                      coupons = coupons s @ [k]\<rparr>
             \<and> customer_findUnique i s' = Some (c\<lparr>points := points c - 100\<rparr>)
             \<and> (points c < 200 \<longrightarrow>
                  createCoupon e' u i s' = (Inl InsufficientPoints, s'))"
    by blast
qed

theorem createCoupon_points_witness:
  "map_option points (customer_findUnique ''cust1'' (seed env0)) = Some 85
   \<and> createCoupon env0 (token (customers (seed env0) ! 1)) ''cust1'' (seed env0)
       = (Inl InsufficientPoints, seed env0)
   \<and> map_option points (customer_findUnique ''cust2'' (seed env0)) = Some 140
   \<and> coupon_findUnique (nextCouponCode env0 (seed env0)) (seed env0) = None
   \<and> map_sum id (\<lambda>k. (code k, coupon_value k, redeemed k))
        (fst (createCoupon env0 (token (customers (seed env0) ! 2)) ''cust2'' (seed env0)))
      = Inr (''COUP-2024-003'', 1000, False)
   \<and> map_option points
        (customer_findUnique ''cust2''
          (snd (createCoupon env0 (token (customers (seed env0) ! 2)) ''cust2'' (seed env0))))
      = Some 40
   \<and> fst (createCoupon env0 (token (customers (seed env0) ! 2)) ''cust2''
        (snd (createCoupon env0 (token (customers (seed env0) ! 2)) ''cust2'' (seed env0))))
      = Inl InsufficientPoints"
proof -
  define c1 where "c1 = customers (seed env0) ! 1"
  define c2 where "c2 = customers (seed env0) ! 2"
  have f1: "customer_findUnique ''cust1'' (seed env0) = Some c1"
    and f2: "customer_findUnique ''cust2'' (seed env0) = Some c2"
    by (simp_all add: customer_findUnique_def seed_def c1_def c2_def)
  have u1: "user_role (token c1) = ADMIN \<or> user_id (token c1) = ''cust1''"
    and u2: "user_role (token c2) = ADMIN \<or> user_id (token c2) = ''cust2''"
    by (simp_all add: token_def seed_def c1_def c2_def)
  have p: "points c1 = 85" "points c2 = 140"
    by (simp_all add: seed_def c1_def c2_def)
  have n: "nextCouponCode env0 (seed env0) = ''COUP-2024-003''"
    by code_simp
  have fresh: "coupon_findUnique (nextCouponCode env0 (seed env0)) (seed env0) = None"
    unfolding n by (simp add: coupon_findUnique_def seed_def)
  note t1 = createCoupon_points [OF u1 f1, of env0 env0]
  note t2 = createCoupon_points [OF u2 f2, of env0 env0]
  from t1 p have r1: "createCoupon env0 (token c1) ''cust1'' (seed env0)
       = (Inl InsufficientPoints, seed env0)"
    by simp
  from t2 p fresh obtain k s' where r2:
    "createCoupon env0 (token c2) ''cust2'' (seed env0) = (Inr k, s')"
    "k = \<lparr>coupon_id = env_uuid env0, code = nextCouponCode env0 (seed env0),
                     coupon_customerId = ''cust2'', coupon_value = 1000,
                     coupon_createdAt = env_now env0, redeemed = False, redeemedAt = None\<rparr>"
    "customer_findUnique ''cust2'' s' = Some (c2\<lparr>points := points c2 - 100\<rparr>)"
    "createCoupon env0 (token c2) ''cust2'' s' = (Inl InsufficientPoints, s')"
    by auto
  show ?thesis
    unfolding c1_def [symmetric] c2_def [symmetric]
    using f1 f2 p fresh r1 r2 n by simp
qed

theorem createCoupon_collision_counterexample:
  "map_option points (customer_findUnique ''cust2'' seed_2024_full) = Some 140
   \<and> createCoupon env0 (token (customers seed_2024_full ! 2)) ''cust2'' seed_2024_full
       = (Inl InternalError, seed_2024_full)"
  by code_simp

text \<open>
  C10. An administrator passes the ownership check of \<open>createCoupon\<close> for every
  customer id: the answer is never \<open>Forbidden\<close> and is the answer the owner would get,
  while any other caller who is not an administrator is refused. For an existing
  customer with 100 points or more, and when no coupon has the generated code yet, the
  administrator's request creates a coupon owned by that customer and takes 100 of that
  customer's points.
\<close>

theorem createCoupon_admin:
  assumes "user_role u = ADMIN"
  shows "fst (createCoupon e u i s) \<noteq> Inl Forbidden
       \<and> (\<forall>v. user_id v = i \<longrightarrow> createCoupon e u i s = createCoupon e v i s)
       \<and> (\<forall>v. user_role v \<noteq> ADMIN \<and> user_id v \<noteq> i
              \<longrightarrow> createCoupon e v i s = (Inl Forbidden, s))
       \<and> (\<forall>c. customer_findUnique i s = Some c \<and> 100 \<le> points c
                \<and> coupon_findUnique (nextCouponCode e s) s = None \<longrightarrow>
              (\<exists>k s'. createCoupon e u i s = (Inr k, s')
                 \<and> coupon_customerId k = i
                 \<and> code k = nextCouponCode e s
                 \<and> coupons s' = coupons s @ [k]
                 \<and> customer_findUnique i s' = Some (c\<lparr>points := points c - 100\<rparr>)))"
proof (intro conjI allI impI)
  show "fst (createCoupon e u i s) \<noteq> Inl Forbidden"
    using assms by (auto simp: createCoupon_def Let_def split: option.splits)
next
  fix v :: user
  assume "user_id v = i"
  then show "createCoupon e u i s = createCoupon e v i s"
    using assms by (simp add: createCoupon_def)
next
  fix v :: user
  assume "user_role v \<noteq> ADMIN \<and> user_id v \<noteq> i"
  then show "createCoupon e v i s = (Inl Forbidden, s)"
    by (simp add: createCoupon_def)
next
  fix c
  assume a: "customer_findUnique i s = Some c \<and> 100 \<le> points c
                \<and> coupon_findUnique (nextCouponCode e s) s = None"
  have u: "user_role u = ADMIN \<or> user_id u = i" using assms by simp
  from a createCoupon_success [OF u, of s c e]
  obtain k s' where r: "createCoupon e u i s = (Inr k, s')"
         "k = \<lparr>coupon_id = env_uuid e, code = nextCouponCode e s,
                 coupon_customerId = i, coupon_value = 1000,
                 coupon_createdAt = env_now e, redeemed = False, redeemedAt = None\<rparr>"
         "s' = \<lparr>customers =
                    map (\<lambda>d. if customer_id d = i then d\<lparr>points := points d - 100\<rparr> else d)
                      (customers s),
                  purchases = purchases s,
                  coupons = coupons s @ [k]\<rparr>"
         "customer_findUnique i s' = Some (c\<lparr>points := points c - 100\<rparr>)"
    by blast
  have "coupon_customerId k = i" "code k = nextCouponCode e s" "coupons s' = coupons s @ [k]"
    using r(2,3) by simp_all
  with r(1,4) show "\<exists>k s'. createCoupon e u i s = (Inr k, s')
                 \<and> coupon_customerId k = i
                 \<and> code k = nextCouponCode e s
                 \<and> coupons s' = coupons s @ [k]
                 \<and> customer_findUnique i s' = Some (c\<lparr>points := points c - 100\<rparr>)"
    by blast
qed

theorem createCoupon_admin_witness:
  "user_role (token (customers (seed env0) ! 0)) = ADMIN
   \<and> map_option points (customer_findUnique ''cust3'' (seed env0)) = Some 220
   \<and> coupon_findUnique (nextCouponCode env0 (seed env0)) (seed env0) = None
   \<and> map_sum id (\<lambda>k. (code k, coupon_customerId k))
        (fst (createCoupon env0 (token (customers (seed env0) ! 0)) ''cust3'' (seed env0)))
      = Inr (''COUP-2024-003'', ''cust3'')
   \<and> map_option points
        (customer_findUnique ''cust3''
          (snd (createCoupon env0 (token (customers (seed env0) ! 0)) ''cust3'' (seed env0))))
      = Some 120
   \<and> createCoupon env0 (token (customers (seed env0) ! 1)) ''cust3'' (seed env0)
      = (Inl Forbidden, seed env0)"
proof -
  define a where "a = token (customers (seed env0) ! 0)"
  define v where "v = token (customers (seed env0) ! 1)"
  define c3 where "c3 = customers (seed env0) ! 3"
  have adm: "user_role a = ADMIN" by (simp add: a_def token_def seed_def)
  have nv: "user_role v \<noteq> ADMIN \<and> user_id v \<noteq> ''cust3''"
    by (simp add: v_def token_def seed_def)
  have f3: "customer_findUnique ''cust3'' (seed env0) = Some c3"
    by (simp add: customer_findUnique_def seed_def c3_def)
  have p: "points c3 = 220" by (simp add: seed_def c3_def)
  have n: "nextCouponCode env0 (seed env0) = ''COUP-2024-003''"
    by code_simp
  have fresh: "coupon_findUnique (nextCouponCode env0 (seed env0)) (seed env0) = None"
    unfolding n by (simp add: coupon_findUnique_def seed_def)
  note t = createCoupon_admin [OF adm, of env0 "''cust3''" "seed env0"]
  from t nv have r1: "createCoupon env0 v ''cust3'' (seed env0) = (Inl Forbidden, seed env0)"
    by blast
  from t f3 p fresh obtain k s' where r2:
    "createCoupon env0 a ''cust3'' (seed env0) = (Inr k, s')"
    "coupon_customerId k = ''cust3''"
    "code k = nextCouponCode env0 (seed env0)"
    "customer_findUnique ''cust3'' s' = Some (c3\<lparr>points := points c3 - 100\<rparr>)"
    by auto
  show ?thesis
    unfolding a_def [symmetric] v_def [symmetric]
    using adm f3 p fresh r1 r2 n by simp
qed

theorem createCoupon_admin_counterexample:
  "user_role (token (customers seed_2024_full ! 0)) = ADMIN
   \<and> map_option points (customer_findUnique ''cust3'' seed_2024_full) = Some 220
   \<and> createCoupon env0 (token (customers seed_2024_full ! 0)) ''cust3'' seed_2024_full
       = (Inl InternalError, seed_2024_full)"
  by code_simp

section \<open>Updating a customer\<close>

lemma schema_role_truthy:
  assumes "updateCustomerSchema e b" "u_role b = Some r"
  shows "r \<noteq> []" "role_of_name r \<noteq> None"
  using assms by (auto simp: updateCustomerSchema_def opt_ok_def role_of_name_def)

lemma updateCustomer_forbidden:
  assumes "user_role u \<noteq> ADMIN" "updateCustomerSchema e b"
  shows "fst (updateCustomer u i b s) = Inl Forbidden \<longleftrightarrow> (u_role b \<noteq> None \<or> user_id u \<noteq> i)"
proof (cases "user_id u = i")
  case False
  then show ?thesis using assms(1) by (simp add: updateCustomer_def)
next
  case True
  show ?thesis
  proof (cases "u_role b")
    case None
    then show ?thesis using True
      by (auto simp: updateCustomer_def split: option.splits)
  next
    case (Some r)
    then show ?thesis
      using True assms(1) schema_role_truthy(1) [OF assms(2) Some]
      by (simp add: updateCustomer_def)
  qed
qed

lemma apply_updates_id: "customer_id (apply_updates b r d) = customer_id d"
  by (simp add: apply_updates_def)

lemma updateCustomer_applied:
  assumes "user_role u = ADMIN \<or> (user_id u = i \<and> u_role b = None)"
    and "customer_findUnique i s = Some c"
    and "case u_role b of Some r \<Rightarrow> role_of_name r \<noteq> None | None \<Rightarrow> True"
    and "case u_email b of Some v \<Rightarrow> \<not> email_taken v i s | None \<Rightarrow> True"
  shows "updateCustomer u i b s
         = (Inr (apply_updates b (case u_role b of Some r \<Rightarrow> role_of_name r | None \<Rightarrow> None) c),
            s\<lparr>customers :=
                 map (\<lambda>d. if customer_id d = i
                           then apply_updates b
                                  (case u_role b of Some r \<Rightarrow> role_of_name r | None \<Rightarrow> None) d
                           else d) (customers s)\<rparr>)"
proof -
  define f where "f = apply_updates b (case u_role b of Some r \<Rightarrow> role_of_name r | None \<Rightarrow> None)"
  have fid: "\<And>d. customer_id (f d) = customer_id d" by (simp add: f_def apply_updates_id)
  note upd = customer_update_found [OF assms(2) fid]
  have d: "customer_update_data i b s
           = Some (s\<lparr>customers := map (\<lambda>d. if customer_id d = i then f d else d) (customers s)\<rparr>)"
    using assms(3,4) upd(1)
    by (auto simp: customer_update_data_def f_def split: option.splits)
  show ?thesis
    using assms(1) d upd(2)
    by (auto simp: updateCustomer_def f_def [symmetric] split: option.splits)
qed

text \<open>
  C9. For a caller who is not an administrator and a body that passes
  \<open>updateCustomerSchema\<close>, \<open>updateCustomer\<close> answers \<open>Forbidden\<close> exactly when the body
  has a role or the id is not the caller's. A body without a role for the caller's
  own existing row is applied, provided its email, if any, is not the email of another
  customer: each of \<open>name\<close>, \<open>email\<close>, \<open>phone\<close> and \<open>points\<close> that is present overwrites
  its column, so the caller sets the own points to any value that is not negative.
\<close>

theorem updateCustomer_self:
  assumes "user_role u \<noteq> ADMIN" "updateCustomerSchema e b"
  shows "(fst (updateCustomer u i b s) = Inl Forbidden
          \<longleftrightarrow> (u_role b \<noteq> None \<or> user_id u \<noteq> i))
       \<and> (\<forall>c. user_id u = i \<and> u_role b = None \<and> customer_findUnique i s = Some c
                \<and> (case u_email b of Some v \<Rightarrow> \<not> email_taken v i s | None \<Rightarrow> True) \<longrightarrow>
              updateCustomer u i b s
              = (Inr (apply_updates b None c),
                 s\<lparr>customers :=
                      map (\<lambda>d. if customer_id d = i then apply_updates b None d else d)
                        (customers s)\<rparr>)
              \<and> points (apply_updates b None c)
                = (case u_points b of Some p \<Rightarrow> p | None \<Rightarrow> points c))"
proof (intro conjI allI impI)
  show "fst (updateCustomer u i b s) = Inl Forbidden
          \<longleftrightarrow> (u_role b \<noteq> None \<or> user_id u \<noteq> i)"
    by (rule updateCustomer_forbidden [OF assms])
next
  fix c
  assume a: "user_id u = i \<and> u_role b = None \<and> customer_findUnique i s = Some c
                \<and> (case u_email b of Some v \<Rightarrow> \<not> email_taken v i s | None \<Rightarrow> True)"
  then show "updateCustomer u i b s
              = (Inr (apply_updates b None c),
                 s\<lparr>customers :=
                      map (\<lambda>d. if customer_id d = i then apply_updates b None d else d)
                        (customers s)\<rparr>)"
    using updateCustomer_applied [of u i b s c] by simp
  show "points (apply_updates b None c)
                = (case u_points b of Some p \<Rightarrow> p | None \<Rightarrow> points c)"
    by (simp add: apply_updates_def)
qed

theorem updateCustomer_self_witness:
  "user_role (token (customers (seed env0) ! 1)) \<noteq> ADMIN
   \<and> updateCustomerSchema env0
        \<lparr>u_name = None, u_email = None, u_phone = None, u_points = Some 100000,
         u_role = None\<rparr>
   \<and> map_sum id points
        (fst (updateCustomer (token (customers (seed env0) ! 1)) ''cust1''
          \<lparr>u_name = None, u_email = None, u_phone = None, u_points = Some 100000,
           u_role = None\<rparr> (seed env0)))
      = Inr 100000
   \<and> fst (updateCustomer (token (customers (seed env0) ! 1)) ''cust2''
          \<lparr>u_name = None, u_email = None, u_phone = None, u_points = Some 100000,
           u_role = None\<rparr> (seed env0))
      = Inl Forbidden"
proof -
  define u where "u = token (customers (seed env0) ! 1)"
  define b where "b = \<lparr>u_name = None, u_email = None, u_phone = None,
    u_points = Some (100000 :: int), u_role = None :: string option\<rparr>"
  define c where "c = customers (seed env0) ! 1"
  have na: "user_role u \<noteq> ADMIN" and uid: "user_id u = ''cust1''"
    by (simp_all add: u_def token_def seed_def)
  have ok: "updateCustomerSchema env0 b"
    by (simp add: updateCustomerSchema_def opt_ok_def b_def)
  have f: "customer_findUnique ''cust1'' (seed env0) = Some c"
    by (simp add: customer_findUnique_def seed_def c_def)
  have bb: "u_role b = None" "u_email b = None" "u_points b = Some 100000"
    by (simp_all add: b_def)
  note t1 = updateCustomer_self [OF na ok, of "''cust1''" "seed env0"]
  note t2 = updateCustomer_self [OF na ok, of "''cust2''" "seed env0"]
  from t1 uid bb f have r1: "map_sum id points (fst (updateCustomer u ''cust1'' b (seed env0))) = Inr 100000"
    by simp
  from t2 uid have r2: "fst (updateCustomer u ''cust2'' b (seed env0)) = Inl Forbidden"
    by simp
  show ?thesis
    unfolding u_def [symmetric] b_def [symmetric]
    using na ok r1 r2 by simp
qed

theorem updateCustomer_email_counterexample:
  "user_role (token (customers (seed env0) ! 1)) \<noteq> ADMIN
   \<and> user_id (token (customers (seed env0) ! 1)) = ''cust1''
   \<and> updateCustomerSchema env0
        \<lparr>u_name = None, u_email = Some ''anna.kovacs@email.hu'', u_phone = None,
         u_points = None, u_role = None\<rparr>
   \<and> updateCustomer (token (customers (seed env0) ! 1)) ''cust1''
        \<lparr>u_name = None, u_email = Some ''anna.kovacs@email.hu'', u_phone = None,
         u_points = None, u_role = None\<rparr> (seed env0)
      = (Inl InternalError, seed env0)"
  by code_simp

section \<open>The points balance\<close>

lemma points_ok_iff: "points_ok s \<longleftrightarrow> (\<forall>c \<in> set (customers s). 0 \<le> points c)"
  by (simp add: points_ok_def list_all_iff)

lemma find_distinct_key:
  assumes "distinct (map f xs)" "find (\<lambda>x. f x = i) xs = Some c" "d \<in> set xs" "f d = i"
  shows "d = c"
proof -
  from assms(2) have "c \<in> set xs" "f c = i"
    by (auto simp: find_Some_iff)
  moreover from assms(1) have "inj_on f (set xs)" by (simp add: distinct_map)
  ultimately show ?thesis using assms(3,4) by (auto dest: inj_onD)
qed

lemma map_update_ok:
  assumes "store_ok s" "customer_findUnique i s = Some c"
    and "\<And>d. customer_id (f d) = customer_id d"
    and "0 \<le> points (f c)"
    and "customers s' = map (\<lambda>d. if customer_id d = i then f d else d) (customers s)"
  shows "store_ok s'"
proof -
  have m: "map customer_id (customers s') = map customer_id (customers s)"
    using assms(3) by (simp add: assms(5))
  have ids: "ids_distinct s'"
    unfolding ids_distinct_def m using assms(1) by (simp add: store_ok_def ids_distinct_def)
  have "0 \<le> points (if customer_id d = i then f d else d)" if "d \<in> set (customers s)" for d
  proof (cases "customer_id d = i")
    case True
    have "d = c"
      using assms(1,2) that True find_distinct_key [of customer_id "customers s" i c d]
      by (simp add: store_ok_def ids_distinct_def customer_findUnique_def)
    then show ?thesis using True assms(4) by simp
  next
    case False
    then show ?thesis using assms(1) that by (simp add: store_ok_def points_ok_iff)
  qed
  then have "\<forall>d\<in>set (customers s). 0 \<le> points (if customer_id d = i then f d else d)"
    by blast
  then have "points_ok s'" by (auto simp: points_ok_iff assms(5) split: if_splits)
  with ids show ?thesis by (simp add: store_ok_def)
qed

lemma customer_update_ok:
  assumes "store_ok s" "customer_update i f s = Some s'"
    and "\<And>d. customer_id (f d) = customer_id d"
    and "\<And>c. customer_findUnique i s = Some c \<Longrightarrow> 0 \<le> points (f c)"
  shows "store_ok s'"
proof -
  from assms(2) obtain c where c: "customer_findUnique i s = Some c"
    and s': "s' = s\<lparr>customers := map (\<lambda>d. if customer_id d = i then f d else d) (customers s)\<rparr>"
    by (auto simp: customer_update_def split: option.splits)
  show ?thesis
    by (rule map_update_ok [OF assms(1) c assms(3) assms(4) [OF c]]) (simp add: s')
qed

lemma customer_update_customers_frame:
  "customer_update i f s = Some s' \<Longrightarrow> customer_findUnique i s \<noteq> None"
  by (auto simp: customer_update_def split: option.splits)

lemma customer_create_ok:
  assumes "customer_create c s = Some s'" "points c = 0" "store_ok s"
  shows "store_ok s'"
proof -
  from assms(1) have new: "s' = s\<lparr>customers := customers s @ [c]\<rparr>"
    and fresh: "find (\<lambda>d. customer_id d = customer_id c \<or> loyaltyId d = loyaltyId c
                    \<or> email d = email c) (customers s) = None"
    by (auto simp: customer_create_def split: if_splits)
  from fresh have "customer_id c \<notin> customer_id ` set (customers s)"
    by (auto simp: find_None_iff)
  then show ?thesis
    using assms(2,3) by (simp add: new store_ok_def ids_distinct_def points_ok_iff)
qed

lemma createCustomer_ok:
  assumes "store_ok s"
  shows "store_ok (snd (createCustomer e b s))"
  using assms
  by (auto simp: createCustomer_def Let_def split: option.splits elim!: customer_create_ok)

lemma updateCustomer_ok:
  assumes "store_ok s" "updateCustomerSchema e b"
  shows "store_ok (snd (updateCustomer u i b s))"
proof (cases "fst (updateCustomer u i b s)")
  case (Inl err)
  then have "snd (updateCustomer u i b s) = s"
    by (auto simp: updateCustomer_def split: option.splits if_splits)
  then show ?thesis using assms by simp
next
  case (Inr res)
  then obtain r where upd: "customer_update i (apply_updates b r) s = Some (snd (updateCustomer u i b s))"
    by (auto simp: updateCustomer_def customer_update_data_def split: option.splits if_splits)
  have "0 \<le> points (apply_updates b r c)" if "customer_findUnique i s = Some c" for c
  proof -
    from that have "c \<in> set (customers s)"
      by (auto simp: customer_findUnique_def find_Some_iff)
    then have "0 \<le> points c" using assms(1) by (simp add: store_ok_def points_ok_iff)
    then show ?thesis
      using assms(2)
      by (auto simp: apply_updates_def updateCustomerSchema_def opt_ok_def split: option.splits)
  qed
  then show ?thesis
    using customer_update_ok [OF assms(1) upd] by (simp add: apply_updates_id)
qed

lemma deleteCustomer_ok:
  assumes "store_ok s"
  shows "store_ok (snd (deleteCustomer i s))"
  using assms
  by (auto simp: deleteCustomer_def customer_delete_def store_ok_def ids_distinct_def
      points_ok_iff distinct_map_filter split: option.splits)

lemma createPurchase_ok:
  assumes "store_ok s" "0 < cp_amount b"
  shows "store_ok (snd (createPurchase e b s))"
proof (cases "customer_findUnique (cp_customerId b) s")
  case None
  then show ?thesis using assms by (simp add: createPurchase_def)
next
  case (Some c)
  from createPurchase_result [OF Some, of e] obtain earned p where
    e: "calculatePoints (cp_amount b) (role_name (role c)) = Some earned"
    and s': "snd (createPurchase e b s)
      = \<lparr>customers =
                    map (\<lambda>d. if customer_id d = cp_customerId b
                              then d\<lparr>points := points d + earned,
                                     totalSpent := totalSpent d + cp_amount b,
                                     visitCount := visitCount d + 1,
                                     role := autoUpgrade (role c) (visitCount c + 1)\<rparr>
                              else d) (customers s),
                  purchases = purchases s @ [p],
                  coupons = coupons s\<rparr>"
    by auto
  have pos: "0 \<le> earned"
    using calculatePoints_nonneg [OF e] assms(2) by simp
  have "c \<in> set (customers s)"
    using Some by (auto simp: customer_findUnique_def find_Some_iff)
  then have "0 \<le> points c" using assms(1) by (simp add: store_ok_def points_ok_iff)
  with pos show ?thesis
    by (intro map_update_ok [OF assms(1) Some,
          where f = "\<lambda>d. d\<lparr>points := points d + earned,
                                     totalSpent := totalSpent d + cp_amount b,
                                     visitCount := visitCount d + 1,
                                     role := autoUpgrade (role c) (visitCount c + 1)\<rparr>"])
      (simp_all add: s')
qed

lemma createCoupon_ok:
  assumes "store_ok s"
  shows "store_ok (snd (createCoupon e u i s))"
proof (cases "fst (createCoupon e u i s)")
  case (Inl err)
  then show ?thesis using assms createCoupon_store_on_error by simp
next
  case (Inr k)
  then obtain c where c: "user_role u = ADMIN \<or> user_id u = i"
      "customer_findUnique i s = Some c" "100 \<le> points c"
      "coupon_findUnique (nextCouponCode e s) s = None"
    by (auto simp: createCoupon_def Let_def coupon_create_def split: option.splits if_splits)
  from createCoupon_success [OF c] obtain k' where
    s': "snd (createCoupon e u i s)
         = \<lparr>customers =
                    map (\<lambda>d. if customer_id d = i then d\<lparr>points := points d - 100\<rparr> else d)
                      (customers s),
                  purchases = purchases s,
                  coupons = coupons s @ [k']\<rparr>"
    by auto
  show ?thesis
    using c(3)
    by (intro map_update_ok [OF assms c(2), where f = "\<lambda>d. d\<lparr>points := points d - 100\<rparr>"])
      (simp_all add: s')
qed

lemma redeemCoupon_customers: "customers (snd (redeemCoupon e k s)) = customers s"
  by (auto simp: redeemCoupon_def coupon_update_def split: option.splits if_splits)

lemma handle_ok:
  assumes "store_ok s"
  shows "store_ok (handle e r s)"
proof (cases r)
  case (PostCustomers b)
  then show ?thesis using assms by (simp add: validate_snd createCustomer_ok)
next
  case (PutCustomer u i b)
  then show ?thesis using assms by (simp add: validate_snd updateCustomer_ok)
next
  case (DeleteCustomer i)
  then show ?thesis using assms by (simp add: deleteCustomer_ok)
next
  case (PostPurchases b)
  then show ?thesis
    using assms by (simp add: validate_snd createPurchase_ok createPurchaseSchema_def)
next
  case (PostCoupons u i)
  then show ?thesis using assms by (simp add: createCoupon_ok)
next
  case (PostCouponLookup k)
  then show ?thesis using assms by (simp add: validate_snd lookupCoupon_store)
next
  case (PutCouponRedeem k)
  then show ?thesis
    using assms redeemCoupon_customers [of e k s]
    by (simp add: store_ok_def ids_distinct_def points_ok_iff)
qed

lemma run_ok: "store_ok s \<Longrightarrow> store_ok (run rs s)"
  by (induction rs arbitrary: s) (auto simp: handle_ok)


text \<open>
  C7. After every sequence of requests (creating, updating and deleting customers,
  recording purchases, creating, looking up and redeeming coupons) the points of every
  customer are an integer that is not negative: from the empty store, and from every
  store with distinct customer ids and no negative points.
\<close>

theorem points_never_negative:
  "points_ok (run rs empty_store)
   \<and> (ids_distinct s \<and> points_ok s \<longrightarrow> points_ok (run rs s) \<and> ids_distinct (run rs s))"
proof -
  have "store_ok empty_store"
    by (simp add: store_ok_def ids_distinct_def points_ok_def empty_store_def)
  then have "store_ok (run rs empty_store)" by (rule run_ok)
  moreover have "store_ok s \<Longrightarrow> store_ok (run rs s)" by (rule run_ok)
  ultimately show ?thesis by (simp add: store_ok_def)
qed

theorem points_never_negative_witness:
  "ids_distinct (seed env0) \<and> points_ok (seed env0)
   \<and> points_ok (run requests0 (seed env0))
   \<and> map points (customers (run requests0 (seed env0))) = [0, 0, 40, 220, 0]"
proof -
  have i: "ids_distinct (seed env0)" by (simp add: ids_distinct_def seed_def)
  have p: "points_ok (seed env0)" by (simp add: points_ok_def seed_def)
  have v: "map points (customers (run requests0 (seed env0))) = [0, 0, 40, 220, 0]"
    by code_simp
  show ?thesis
    using points_never_negative [of requests0 "seed env0"] i p v by simp
qed

section \<open>Coupon codes\<close>

subsection \<open>The order of codes\<close>








subsection \<open>Decimal digits\<close>








subsection \<open>Whole numbers as doubles\<close>









subsection \<open>Segments\<close>

lemma split_not_Nil: "split d s \<noteq> []"
  by (induction s) auto









lemma nextCouponCode_string_order:
  "str_less ''COUP-2024-1000'' ''COUP-2024-999''
   \<and> nextCouponCode (env0\<lparr>env_year := 2025\<rparr>) seed_2024_full = ''COUP-2025-1000''"
  by code_simp

text \<open>
  From \<open>2^53\<close> on the double sum \<open>lastId + 1\<close> is not the successor: the number of the
  last identifier comes back.
\<close>

lemma generateCouponCode_2_53:
  "generateCouponCode env0 (parseInt ''9007199254740992'') = ''COUP-2024-9007199254740992''"
  "generateLoyaltyId (parseInt ''9007199254740992'') = ''CUST9007199254740992''"
  by code_simp+

end
